theory Spec2Isabelle
  imports Main "HOL-Library.AList"
begin

section \<open>JavaScript values\<close>

text \<open>
  The free-form values of the sources (\<^verbatim>\<open>any\<close>, \<^verbatim>\<open>Record<string, any>\<close>) are JSON-like
  values. An object is an association list in insertion order, as a JavaScript object
  enumerates its own string keys. \<open>JUndefined\<close> is the value an absent optional property
  reads as. Numbers are integers here: the sources copy and compare them, and use one as
  a property key.
\<close>

datatype JsonValue =
    JUndefined
  | JNull
  | JBool bool
  | JNum int
  | JStr string
  | JArr "JsonValue list"
  | JObj "(string \<times> JsonValue) list"

type_synonym dict = "(string \<times> JsonValue) list"

text \<open>Truthiness of a value, as \<^verbatim>\<open>if (x)\<close>, \<^verbatim>\<open>!x\<close> and \<^verbatim>\<open>x || y\<close> test it.\<close>

fun truthy :: "JsonValue \<Rightarrow> bool" where
  "truthy JUndefined = False"
| "truthy JNull = False"
| "truthy (JBool b) = b"
| "truthy (JNum n) = (n \<noteq> 0)"
| "truthy (JStr s) = (s \<noteq> [])"
| "truthy (JArr xs) = True"
| "truthy (JObj m) = True"

text \<open>Object spread \<^verbatim>\<open>{...a, ...b}\<close>: the keys of \<open>a\<close> in their order, each with the value of
  \<open>b\<close> where \<open>b\<close> has the key, then the keys only \<open>b\<close> has.\<close>

definition spread :: "dict \<Rightarrow> dict \<Rightarrow> dict" where
  "spread a b =
     map (\<lambda>(k, v). (k, case map_of b k of None \<Rightarrow> v | Some w \<Rightarrow> w)) a
     @ filter (\<lambda>(k, w). map_of a k = None) b"

text \<open>Reading a property: \<^verbatim>\<open>d.k\<close> on an object, \<^verbatim>\<open>undefined\<close> when \<open>d\<close> has no such key.\<close>

definition prop_of :: "dict \<Rightarrow> string \<Rightarrow> JsonValue" where
  "prop_of d k = (case map_of d k of None \<Rightarrow> JUndefined | Some v \<Rightarrow> v)"

text \<open>\<^verbatim>\<open>v.k\<close> on a value that is not null or undefined; a value that is not an object has
  none of the properties the sources read.\<close>

fun get_prop :: "JsonValue \<Rightarrow> string \<Rightarrow> JsonValue" where
  "get_prop (JObj d) k = prop_of d k"
| "get_prop v k = JUndefined"

text \<open>\<^verbatim>\<open>x || y\<close> and \<^verbatim>\<open>x ?? y\<close>.\<close>

definition or_else :: "JsonValue \<Rightarrow> JsonValue \<Rightarrow> JsonValue" where
  "or_else x y = (if truthy x then x else y)"

fun nullish :: "JsonValue \<Rightarrow> bool" where
  "nullish JUndefined = True"
| "nullish JNull = True"
| "nullish v = False"

definition nullish_or :: "JsonValue \<Rightarrow> JsonValue \<Rightarrow> JsonValue" where
  "nullish_or x y = (if nullish x then y else x)"

section \<open>The chunk merge algebra (messages/base, messages/tool)\<close>

subsection \<open>Helpers imported from \<^verbatim>\<open>./base.js\<close>\<close>

text \<open>
  Message content is a string or a list of typed content parts
  (\<^verbatim>\<open>MessageContent\<close>). A chunk built from a delta without content holds the empty
  string (\<^verbatim>\<open>delta.content ?? ""\<close>), so absent content is \<open>Text []\<close>.
\<close>

datatype MessageContent = Text string | Parts "JsonValue list"

text \<open>The content part that holds a text.\<close>

definition text_part :: "string \<Rightarrow> JsonValue" where
  "text_part s = JObj [(''type'', JStr ''text''), (''text'', JStr s)]"

text \<open>
  Modelled from the spec: \<^verbatim>\<open>mergeContent\<close> of \<^verbatim>\<open>./base.js\<close> is not among the sources.
  Section 4.2: two texts concatenate; if either side is a list of parts the result is the
  list concatenation, a text counting as a one-part list; if one side is absent or empty
  the other is returned unchanged. Absence (the empty text) is tested before emptiness of
  a part list.
\<close>

fun mergeContent :: "MessageContent \<Rightarrow> MessageContent \<Rightarrow> MessageContent" where
  "mergeContent (Text s) (Text t) = Text (s @ t)"
| "mergeContent (Text s) (Parts q) =
     (if s = [] then Parts q else if q = [] then Text s else Parts (text_part s # q))"
| "mergeContent (Parts p) (Text t) =
     (if t = [] then Parts p else if p = [] then Text t else Parts (p @ [text_part t]))"
| "mergeContent (Parts p) (Parts q) = Parts (p @ q)"

text \<open>
  Modelled from the spec: \<^verbatim>\<open>_mergeObj\<close> and \<^verbatim>\<open>_mergeDicts\<close> of \<^verbatim>\<open>./base.js\<close> are not among
  the sources. Section 3 and 4.2: maps merge key-wise, the later value overriding on a
  key collision, except that colliding maps merge recursively and colliding sequences
  concatenate. The spec gives the artifact no rule of its own; the source merges it with
  \<^verbatim>\<open>_mergeObj\<close>, modelled as the merge of two values, where an absent (undefined) side
  yields the other side (section 8, identity on absence).
\<close>

fun mergeObj :: "JsonValue \<Rightarrow> JsonValue \<Rightarrow> JsonValue"
and mergeDicts :: "dict \<Rightarrow> dict \<Rightarrow> dict" where
  "mergeObj JUndefined y = y"
| "mergeObj x JUndefined = x"
| "mergeObj (JObj m) (JObj n) = JObj (mergeDicts m n)"
| "mergeObj (JArr s) (JArr t) = JArr (s @ t)"
| "mergeObj x y = y"
| "mergeDicts m n =
     map (\<lambda>(k, v). (k, case map_of n k of None \<Rightarrow> v | Some w \<Rightarrow> mergeObj v w)) m
     @ filter (\<lambda>(k, w). map_of m k = None) n"

datatype ToolStatus = StatusSuccess | StatusError

text \<open>
  Modelled from the spec: \<^verbatim>\<open>_mergeStatus\<close> of \<^verbatim>\<open>./base.js\<close> is not among the sources.
  Section 4.2: the later defined value wins; if the later fragment leaves the status
  undefined, the earlier value survives.
\<close>

fun mergeStatus :: "ToolStatus option \<Rightarrow> ToolStatus option \<Rightarrow> ToolStatus option" where
  "mergeStatus left None = left"
| "mergeStatus left (Some r) = Some r"

subsection \<open>\<^verbatim>\<open>ToolMessageChunk\<close>\<close>

text \<open>
  The fields of \<^verbatim>\<open>BaseMessageFields\<close> that the sources name (\<^verbatim>\<open>content\<close>, \<^verbatim>\<open>name\<close>,
  \<^verbatim>\<open>additional_kwargs\<close>, \<^verbatim>\<open>response_metadata\<close>, \<^verbatim>\<open>id\<close>) and the three fields the class
  declares. An absent map is the empty map, an absent artifact is \<open>JUndefined\<close>.
\<close>

record BaseMessageChunk =
  content :: MessageContent
  name :: "string option"
  additional_kwargs :: dict
  response_metadata :: dict
  id' :: "string option"

record ToolMessageChunk = BaseMessageChunk +
  tool_call_id :: string
  status :: "ToolStatus option"
  artifact :: JsonValue

text \<open>\<^verbatim>\<open>ToolMessageChunk.concat\<close>. The constructor call passes no \<^verbatim>\<open>name\<close>, so the result has
  none; \<^verbatim>\<open>this.id ?? chunk.id\<close> takes the argument's id only when the receiver has none.\<close>

definition concat_tool :: "ToolMessageChunk \<Rightarrow> ToolMessageChunk \<Rightarrow> ToolMessageChunk" where
  "concat_tool this chunk =
     \<lparr> content = mergeContent (content this) (content chunk),
       name = None,
       additional_kwargs = mergeDicts (additional_kwargs this) (additional_kwargs chunk),
       response_metadata = mergeDicts (response_metadata this) (response_metadata chunk),
       id' = (case id' this of None \<Rightarrow> id' chunk | Some i \<Rightarrow> Some i),
       tool_call_id = tool_call_id this,
       status = mergeStatus (status this) (status chunk),
       artifact = mergeObj (artifact this) (artifact chunk) \<rparr>"

text \<open>The chunk all of whose optional fields are absent; \<^verbatim>\<open>tool_call_id\<close> is required.\<close>

definition absent_chunk :: "string \<Rightarrow> ToolMessageChunk" where
  "absent_chunk t =
     \<lparr> content = Text [], name = None, additional_kwargs = [], response_metadata = [],
       id' = None, tool_call_id = t, status = None, artifact = JUndefined \<rparr>"

text \<open>The fold of a group: the first chunk, then each later chunk merged in from the right.\<close>

definition concat_all :: "ToolMessageChunk \<Rightarrow> ToolMessageChunk list \<Rightarrow> ToolMessageChunk" where
  "concat_all first rest = foldl concat_tool first rest"

subsection \<open>Vocabulary for the properties of the merge\<close>

text \<open>The id a fold ends with: the first id that is present, in delivery order.\<close>

fun first_some :: "'a option list \<Rightarrow> 'a option" where
  "first_some [] = None"
| "first_some (None # xs) = first_some xs"
| "first_some (Some x # xs) = Some x"

text \<open>Two contents agree in kind when both are texts or both are part lists; absent
  content (the empty text) agrees with either.\<close>

fun same_kind :: "MessageContent \<Rightarrow> MessageContent \<Rightarrow> bool" where
  "same_kind (Text s) (Text t) = True"
| "same_kind (Parts p) (Parts q) = True"
| "same_kind (Text s) (Parts q) = (s = [])"
| "same_kind (Parts p) (Text t) = (t = [])"

datatype Shape = ShUndefined | ShScalar | ShArr | ShObj

fun shape :: "JsonValue \<Rightarrow> Shape" where
  "shape JUndefined = ShUndefined"
| "shape (JArr s) = ShArr"
| "shape (JObj m) = ShObj"
| "shape x = ShScalar"

text \<open>Two values have the same shape when both are maps whose values under every common
  key have the same shape, both are sequences, or both are scalars; an undefined value
  agrees with every value. Two maps have the same shape when the values under every key
  they share do.\<close>

fun same_shape :: "JsonValue \<Rightarrow> JsonValue \<Rightarrow> bool"
and same_shape_dict :: "dict \<Rightarrow> dict \<Rightarrow> bool" where
  "same_shape (JObj m) (JObj n) = same_shape_dict m n"
| "same_shape x y = (shape x = ShUndefined \<or> shape y = ShUndefined \<or> shape x = shape y)"
| "same_shape_dict m n =
     list_all (\<lambda>(k, v). case map_of n k of None \<Rightarrow> True | Some w \<Rightarrow> same_shape v w) m"

definition mergeable :: "ToolMessageChunk \<Rightarrow> ToolMessageChunk \<Rightarrow> bool" where
  "mergeable a b =
     (same_kind (content a) (content b)
      \<and> same_shape_dict (additional_kwargs a) (additional_kwargs b)
      \<and> same_shape_dict (response_metadata a) (response_metadata b)
      \<and> same_shape (artifact a) (artifact b))"

text \<open>What \<open>mergeDicts m n\<close> does to one entry of \<open>m\<close>.\<close>

definition merge_entry :: "dict \<Rightarrow> string \<times> JsonValue \<Rightarrow> string \<times> JsonValue" where
  "merge_entry n = (\<lambda>(k, v). (k, case map_of n k of None \<Rightarrow> v | Some w \<Rightarrow> mergeObj v w))"

text \<open>Three chunks of one tool call, with nested metadata, used as a concrete instance.\<close>

definition chunkA :: ToolMessageChunk where
  "chunkA = \<lparr> content = Text ''J'', name = None,
       additional_kwargs = [(''meta'', JObj [(''a'', JNum 1)]), (''tags'', JArr [JStr ''x''])],
       response_metadata = [], id' = None, tool_call_id = ''call_1'', status = None,
       artifact = JUndefined \<rparr>"

definition chunkB :: ToolMessageChunk where
  "chunkB = \<lparr> content = Text ''ava'', name = None,
       additional_kwargs = [(''tags'', JArr [JStr ''y'']), (''meta'', JObj [(''b'', JNum 2)])],
       response_metadata = [(''model'', JStr ''m'')], id' = Some ''id1'',
       tool_call_id = ''call_1'', status = Some StatusError, artifact = JArr [JNum 1] \<rparr>"

definition chunkC :: ToolMessageChunk where
  "chunkC = \<lparr> content = Text ''!'', name = None,
       additional_kwargs = [(''meta'', JObj [(''a'', JNum 3)])],
       response_metadata = [(''model'', JStr ''n'')], id' = Some ''id2'',
       tool_call_id = ''call_1'', status = Some StatusSuccess, artifact = JArr [JNum 2] \<rparr>"

section \<open>The context-propagating wrapper (runnables/iter)\<close>

text \<open>A thrown JavaScript \<^verbatim>\<open>Error\<close>, with its message.\<close>

datatype error = Error string

text \<open>
  What one call of an iterator's \<^verbatim>\<open>next\<close> returns: \<^verbatim>\<open>{value, done: false}\<close> or
  \<^verbatim>\<open>{done: true}\<close> (the wrappers never look at the value of a finished step), or the
  error it throws.
\<close>

datatype 'a IteratorResult = Value 'a | Done

type_synonym 'a step_result = "error + 'a IteratorResult"

text \<open>
  The ambient state: the configuration the context storage currently holds, and how many
  times a context has been installed so far.
\<close>

record 'c World =
  ambient :: "'c option"
  installs :: nat

text \<open>
  Modelled from the spec: \<^verbatim>\<open>AsyncLocalStorageProviderSingleton.runWithConfig\<close> of
  \<^verbatim>\<open>../singletons/index.js\<close> is not among the sources. Section 4.1: the context is
  installed as the ambient context for the duration of the callback only, and whatever
  was ambient before is restored afterwards, also when the callback fails (a failure is
  part of the callback's result here); no context means the ambient context is left
  unchanged. The third argument of the source's calls is not modelled.
\<close>

definition runWithConfig ::
  "'c option \<Rightarrow> ('c World \<Rightarrow> 'r \<times> 'c World) \<Rightarrow> 'c World \<Rightarrow> 'r \<times> 'c World" where
  "runWithConfig config callback w =
     (let saved = ambient w;
          (r, w') = callback (w\<lparr>ambient := (case config of None \<Rightarrow> saved | Some c \<Rightarrow> Some c),
                                 installs := Suc (installs w)\<rparr>)
      in (r, w'\<lparr>ambient := saved\<rparr>))"

text \<open>The context the callback of \<open>runWithConfig\<close> observes.\<close>

definition effective :: "'c option \<Rightarrow> 'c World \<Rightarrow> 'c option" where
  "effective context w = (case context of None \<Rightarrow> ambient w | Some c \<Rightarrow> Some c)"

subsection \<open>\<^verbatim>\<open>consumeIteratorInContext\<close>\<close>

text \<open>
  A generator object: whether its body has finished (by \<^verbatim>\<open>break\<close> or by a throw), and
  the state of the iterator it holds. An iterator is its state \<open>'s\<close> and its \<^verbatim>\<open>next\<close>,
  which reads the ambient context and returns a step result and the new state.
\<close>

record 's Generator =
  completed :: bool
  iter_state :: 's

text \<open>Calling the generator function runs none of its body.\<close>

definition consumeIteratorInContext :: "'s \<Rightarrow> 's Generator" where
  "consumeIteratorInContext iter = \<lparr>completed = False, iter_state = iter\<rparr>"

text \<open>
  One pull of the generator: one iteration of \<^verbatim>\<open>while (true)\<close> up to the \<^verbatim>\<open>yield\<close>, the
  \<^verbatim>\<open>break\<close> or the throw. A finished generator answers \<^verbatim>\<open>{done: true}\<close> without
  running anything.
\<close>

definition consumeIteratorInContext_next ::
  "'c option \<Rightarrow> ('c option \<Rightarrow> 's \<Rightarrow> 'a step_result \<times> 's) \<Rightarrow>
   's Generator \<Rightarrow> 'c World \<Rightarrow> ('a step_result \<times> 's Generator) \<times> 'c World" where
  "consumeIteratorInContext_next context iter_next g w =
     (if completed g then ((Inr Done, g), w)
      else
        (let ((r, s'), w') =
               runWithConfig context (\<lambda>w1. (iter_next (ambient w1) (iter_state g), w1)) w
         in case r of
              Inl e \<Rightarrow> ((Inl e, \<lparr>completed = True, iter_state = s'\<rparr>), w')
            | Inr Done \<Rightarrow> ((Inr Done, \<lparr>completed = True, iter_state = s'\<rparr>), w')
            | Inr (Value v) \<Rightarrow> ((Inr (Value v), \<lparr>completed = False, iter_state = s'\<rparr>), w')))"

subsection \<open>\<^verbatim>\<open>consumeAsyncIterableInContext\<close>\<close>

text \<open>
  The asynchronous wrapper holds two objects: the iterable \<^verbatim>\<open>iter\<close> and the iterator
  \<^verbatim>\<open>iter[Symbol.asyncIterator]()\<close>. Objects live in a heap \<open>'h\<close> and are named by
  references. \<open>asyncIterator h iter\<close> is the iterable's method: the iterator's reference
  and the heap after creating it. \<open>next_of obj this\<close> is the function stored as
  \<^verbatim>\<open>obj.next\<close>, called with receiver \<open>this\<close>. The generator's local \<^verbatim>\<open>iterator\<close> is set by
  the first pull. The pulls of one consumer run one after another; \<^verbatim>\<open>await\<close> is not
  modelled.
\<close>

type_synonym ref = nat

definition consumeAsyncIterableInContext :: "(ref option) Generator" where
  "consumeAsyncIterableInContext = \<lparr>completed = False, iter_state = None\<rparr>"

text \<open>The source binds the receiver of \<^verbatim>\<open>iterator.next\<close> to \<^verbatim>\<open>iter\<close>:
  \<^verbatim>\<open>iterator.next.bind(iter)\<close>.\<close>

definition consumeAsyncIterableInContext_next ::
  "'c option \<Rightarrow> ('h \<Rightarrow> ref \<Rightarrow> ref \<times> 'h) \<Rightarrow>
   (ref \<Rightarrow> ref \<Rightarrow> 'c option \<Rightarrow> 'h \<Rightarrow> 'a step_result \<times> 'h) \<Rightarrow> ref \<Rightarrow>
   (ref option) Generator \<times> 'h \<Rightarrow> 'c World \<Rightarrow>
   ('a step_result \<times> (ref option) Generator \<times> 'h) \<times> 'c World" where
  "consumeAsyncIterableInContext_next context asyncIterator next_of iter gh w =
     (let (g, h) = gh in
      if completed g then ((Inr Done, (g, h)), w)
      else
        (let (iterator, h0) =
               (case iter_state g of None \<Rightarrow> asyncIterator h iter | Some it \<Rightarrow> (it, h));
             ((r, h'), w') =
               runWithConfig context (\<lambda>w1. (next_of iterator iter (ambient w1) h0, w1)) w
         in case r of
              Inl e \<Rightarrow> ((Inl e, (\<lparr>completed = True, iter_state = Some iterator\<rparr>, h')), w')
            | Inr Done \<Rightarrow> ((Inr Done, (\<lparr>completed = True, iter_state = Some iterator\<rparr>, h')), w')
            | Inr (Value v) \<Rightarrow>
                ((Inr (Value v), (\<lparr>completed = False, iter_state = Some iterator\<rparr>, h')), w')))"

subsection \<open>Consumers\<close>

text \<open>A consumer pulling \<open>n\<close> times: the results in order, the final state of the
  sequence and the final ambient state.\<close>

fun pulls :: "('g \<Rightarrow> 'w \<Rightarrow> ('r \<times> 'g) \<times> 'w) \<Rightarrow> nat \<Rightarrow> 'g \<Rightarrow> 'w \<Rightarrow> 'r list \<times> 'g \<times> 'w" where
  "pulls pull 0 g w = ([], g, w)"
| "pulls pull (Suc n) g w =
     (let ((r, g'), w') = pull g w;
          (rs, g'', w'') = pulls pull n g' w'
      in (r # rs, g'', w''))"

text \<open>Pulling an iterator directly, with a fixed ambient context and no wrapper.\<close>

definition direct_next ::
  "'c option \<Rightarrow> ('c option \<Rightarrow> 's \<Rightarrow> 'a step_result \<times> 's) \<Rightarrow> 's \<Rightarrow> unit \<Rightarrow>
   ('a step_result \<times> 's) \<times> unit" where
  "direct_next c iter_next s u = (iter_next c s, u)"

fun is_value :: "'a step_result \<Rightarrow> bool" where
  "is_value (Inr (Value v)) = True"
| "is_value r = False"

text \<open>A sequence of step results cut at its end: the results up to and including the first
  that is not a value, and \<^verbatim>\<open>{done: true}\<close> from then on.\<close>

fun stop_after_end :: "'a step_result list \<Rightarrow> 'a step_result list" where
  "stop_after_end [] = []"
| "stop_after_end (r # rs) =
     (if is_value r then r # stop_after_end rs else r # map (\<lambda>_. Inr Done) rs)"

text \<open>The number of pulls up to and including the first that does not return a value.\<close>

fun live_pulls :: "'a step_result list \<Rightarrow> nat" where
  "live_pulls [] = 0"
| "live_pulls (r # rs) = (if is_value r then Suc (live_pulls rs) else 1)"

subsection \<open>An asynchronous iterable whose iterator is a separate object\<close>

text \<open>
  \<^verbatim>\<open>
  class Cursor {
    constructor(items) { this.items = items; this.pos = 0; }
    async next() {
      return this.pos < this.items.length
        ? { value: this.items[this.pos++], done: false }
        : { value: undefined, done: true };
    }
  }
  const source = {
    items: [1, 2, 3],
    [Symbol.asyncIterator]() { return new Cursor(this.items); },
  };
  \<close>
  An object has \<^verbatim>\<open>items\<close> and possibly \<^verbatim>\<open>pos\<close>; with \<^verbatim>\<open>this.pos\<close> undefined the comparison
  in \<^verbatim>\<open>next\<close> is false.
\<close>

record Obj =
  items :: "int list"
  pos :: "nat option"

type_synonym heap = "ref \<Rightarrow> Obj option"

definition cursor_next :: "ref \<Rightarrow> ref \<Rightarrow> unit option \<Rightarrow> heap \<Rightarrow> int step_result \<times> heap" where
  "cursor_next obj this c h =
     (case h this of
        None \<Rightarrow> (Inl (Error ''TypeError''), h)
      | Some ob \<Rightarrow>
          (case pos ob of
             None \<Rightarrow> (Inr Done, h)
           | Some i \<Rightarrow>
               (case drop i (items ob) of
                  [] \<Rightarrow> (Inr Done, h)
                | x # _ \<Rightarrow> (Inr (Value x), h(this \<mapsto> ob\<lparr>pos := Some (Suc i)\<rparr>)))))"

definition source_asyncIterator :: "heap \<Rightarrow> ref \<Rightarrow> ref \<times> heap" where
  "source_asyncIterator h src =
     (1, h(1 \<mapsto> \<lparr>items = (case h src of None \<Rightarrow> [] | Some ob \<Rightarrow> items ob), pos = Some 0\<rparr>))"

definition source_heap :: heap where
  "source_heap = Map.empty(0 \<mapsto> \<lparr>items = [1, 2, 3], pos = None\<rparr>)"

definition world0 :: "unit World" where
  "world0 = \<lparr>ambient = None, installs = 0\<rparr>"

section \<open>Tool calls (messages/tool)\<close>

text \<open>
  \<^verbatim>\<open>ToolCall\<close> is \<^verbatim>\<open>{name, args, id}\<close> and \<^verbatim>\<open>InvalidToolCall\<close> is \<^verbatim>\<open>{name, args, id, error}\<close>,
  in this order. The raw tool calls are \<^verbatim>\<open>Record<string, any>\<close>, so every field holds
  whatever value the raw object has there.
\<close>

datatype ToolCall = ToolCall JsonValue JsonValue JsonValue

datatype InvalidToolCall = InvalidToolCall JsonValue JsonValue JsonValue JsonValue

text \<open>
  \<^verbatim>\<open>defaultToolCallParser\<close>: the \<^verbatim>\<open>for\<close> loop with its two result arrays. \<open>JSON_parse\<close>
  is the built-in \<^verbatim>\<open>JSON.parse\<close>, applied to whatever \<^verbatim>\<open>function.arguments\<close> holds; \<open>Inl\<close>
  is the error it throws, which the \<^verbatim>\<open>catch\<close> turns into an invalid tool call.
\<close>

fun defaultToolCallParser_loop ::
  "(JsonValue \<Rightarrow> error + JsonValue) \<Rightarrow> dict list \<Rightarrow> ToolCall list \<times> InvalidToolCall list \<Rightarrow>
   ToolCall list \<times> InvalidToolCall list" where
  "defaultToolCallParser_loop JSON_parse [] acc = acc"
| "defaultToolCallParser_loop JSON_parse (toolCall # rest) (toolCalls, invalidToolCalls) =
     (if \<not> truthy (prop_of toolCall ''function'') then
        defaultToolCallParser_loop JSON_parse rest (toolCalls, invalidToolCalls)
      else
        (let functionName = get_prop (prop_of toolCall ''function'') ''name'' in
         case JSON_parse (get_prop (prop_of toolCall ''function'') ''arguments'') of
           Inr functionArgs \<Rightarrow>
             defaultToolCallParser_loop JSON_parse rest
               (toolCalls @ [ToolCall (or_else functionName (JStr []))
                                      (or_else functionArgs (JObj []))
                                      (prop_of toolCall ''id'')],
                invalidToolCalls)
         | Inl err \<Rightarrow>
             defaultToolCallParser_loop JSON_parse rest
               (toolCalls,
                invalidToolCalls @ [InvalidToolCall functionName
                                      (get_prop (prop_of toolCall ''function'') ''arguments'')
                                      (prop_of toolCall ''id'')
                                      (JStr ''Malformed args.'')])))"

definition defaultToolCallParser ::
  "(JsonValue \<Rightarrow> error + JsonValue) \<Rightarrow> dict list \<Rightarrow> ToolCall list \<times> InvalidToolCall list" where
  "defaultToolCallParser JSON_parse rawToolCalls =
     defaultToolCallParser_loop JSON_parse rawToolCalls ([], [])"

text \<open>
  What one raw tool call contributes: nothing when it has no (truthy) \<^verbatim>\<open>function\<close>, a
  valid tool call when the arguments parse, an invalid tool call otherwise.
\<close>

datatype Parsed = Dropped | Valid ToolCall | Invalid InvalidToolCall

definition classify :: "(JsonValue \<Rightarrow> error + JsonValue) \<Rightarrow> dict \<Rightarrow> Parsed" where
  "classify JSON_parse raw =
     (case map_of raw ''function'' of
        None \<Rightarrow> Dropped
      | Some f \<Rightarrow>
          if \<not> truthy f then Dropped
          else
            (case JSON_parse (get_prop f ''arguments'') of
               Inr a \<Rightarrow> Valid (ToolCall (if truthy (get_prop f ''name'') then get_prop f ''name'' else JStr [])
                                         (if truthy a then a else JObj [])
                                         (prop_of raw ''id''))
             | Inl e \<Rightarrow> Invalid (InvalidToolCall (get_prop f ''name'') (get_prop f ''arguments'')
                                     (prop_of raw ''id'') (JStr ''Malformed args.''))))"

fun valid_of :: "Parsed \<Rightarrow> ToolCall option" where
  "valid_of (Valid t) = Some t"
| "valid_of p = None"

fun invalid_of :: "Parsed \<Rightarrow> InvalidToolCall option" where
  "invalid_of (Invalid t) = Some t"
| "invalid_of p = None"

fun option_list :: "'a option \<Rightarrow> 'a list" where
  "option_list None = []"
| "option_list (Some x) = [x]"

section \<open>Streaming chat completions (langchain-openai, chat_models)\<close>

subsection \<open>Message chunks and generation chunks\<close>

text \<open>Assigning \<^verbatim>\<open>d[k] = v\<close>: an existing key keeps its place.\<close>

definition set_key :: "dict \<Rightarrow> string \<Rightarrow> JsonValue \<Rightarrow> dict" where
  "set_key d k v = spread d [(k, v)]"

text \<open>\<^verbatim>\<open>usage_metadata\<close> of a message: \<^verbatim>\<open>{input_tokens, output_tokens, total_tokens}\<close>.\<close>

record UsageMetadata =
  input_tokens :: int
  output_tokens :: int
  total_tokens :: int

text \<open>\<^verbatim>\<open>ToolCallChunk\<close> is \<^verbatim>\<open>{name, args, id, index}\<close>, in this order (its \<^verbatim>\<open>type\<close> is the
  constant \<^verbatim>\<open>"tool_call_chunk"\<close>).\<close>

datatype ToolCallChunk = ToolCallChunk JsonValue JsonValue JsonValue JsonValue

text \<open>
  The chunk classes \<^verbatim>\<open>_convertDeltaToMessageChunk\<close> builds, as one record: the class, the
  base fields and the fields only some classes have (\<^verbatim>\<open>tool_call_chunks\<close> and
  \<^verbatim>\<open>usage_metadata\<close> of an \<^verbatim>\<open>AIMessageChunk\<close>, \<^verbatim>\<open>tool_call_id\<close> of a \<^verbatim>\<open>ToolMessageChunk\<close>,
  the role of a \<^verbatim>\<open>ChatMessageChunk\<close>). A field the constructor call does not pass is absent.
\<close>

datatype MessageClass =
    HumanChunk | AIChunk | SystemChunk | FunctionChunk | ToolChunk | ChatChunk JsonValue

record MessageChunk = BaseMessageChunk +
  chunk_class :: MessageClass
  tool_call_chunks :: "ToolCallChunk list"
  usage_metadata :: "UsageMetadata option"
  delta_tool_call_id :: JsonValue

definition new_chunk :: "MessageClass \<Rightarrow> MessageContent \<Rightarrow> MessageChunk" where
  "new_chunk c t =
     \<lparr> content = t, name = None, additional_kwargs = [], response_metadata = [], id' = None,
       chunk_class = c, tool_call_chunks = [], usage_metadata = None,
       delta_tool_call_id = JUndefined \<rparr>"

text \<open>
  The response chunk of the API (\<^verbatim>\<open>ChatCompletionChunk\<close>) with the fields the sources read.
  \<^verbatim>\<open>delta\<close> is a \<^verbatim>\<open>Record<string, any>\<close>; \<^verbatim>\<open>finish_reason\<close> is \<open>None\<close> when undefined and
  \<open>Some JNull\<close> when null. \<^verbatim>\<open>usage.total_tokens\<close> is \<open>total_tokens'\<close>.
\<close>

record CompletionUsage =
  prompt_tokens :: int
  completion_tokens :: int
  total_tokens' :: int

record Choice =
  index :: "int option"
  delta :: "dict option"
  finish_reason :: "JsonValue option"
  logprobs :: JsonValue

record ChatCompletionChunk =
  response_id :: string
  choices :: "Choice list"
  usage :: "CompletionUsage option"
  system_fingerprint :: JsonValue

text \<open>The response as a value, for \<^verbatim>\<open>additional_kwargs.__raw_response = rawResponse\<close>.\<close>

fun opt_json :: "JsonValue option \<Rightarrow> JsonValue" where
  "opt_json None = JUndefined"
| "opt_json (Some v) = v"

definition choice_json :: "Choice \<Rightarrow> JsonValue" where
  "choice_json c =
     JObj [(''index'', (case index c of None \<Rightarrow> JUndefined | Some i \<Rightarrow> JNum i)),
           (''delta'', (case delta c of None \<Rightarrow> JUndefined | Some d \<Rightarrow> JObj d)),
           (''finish_reason'', opt_json (finish_reason c)),
           (''logprobs'', logprobs c)]"

definition usage_json :: "CompletionUsage \<Rightarrow> JsonValue" where
  "usage_json u =
     JObj [(''prompt_tokens'', JNum (prompt_tokens u)),
           (''completion_tokens'', JNum (completion_tokens u)),
           (''total_tokens'', JNum (total_tokens' u))]"

definition response_json :: "ChatCompletionChunk \<Rightarrow> JsonValue" where
  "response_json d =
     JObj [(''id'', JStr (response_id d)),
           (''choices'', JArr (map choice_json (choices d))),
           (''usage'', (case usage d of None \<Rightarrow> JUndefined | Some u \<Rightarrow> usage_json u)),
           (''system_fingerprint'', system_fingerprint d)]"

text \<open>The content a chunk gets from \<^verbatim>\<open>delta.content\<close>. Only a string is string content; any
  other value makes \<^verbatim>\<open>typeof chunk.content !== "string"\<close> true.\<close>

fun content_of_json :: "JsonValue \<Rightarrow> MessageContent" where
  "content_of_json (JStr s) = Text s"
| "content_of_json (JArr ps) = Parts ps"
| "content_of_json v = Parts [v]"

fun string_of_json :: "JsonValue \<Rightarrow> string option" where
  "string_of_json (JStr s) = Some s"
| "string_of_json v = None"

text \<open>One element of \<^verbatim>\<open>delta.tool_calls\<close> as a tool call chunk; \<^verbatim>\<open>rawToolCall.function?.name\<close>
  is undefined when \<^verbatim>\<open>function\<close> is null or undefined. The elements are objects.\<close>

definition rawToolCall_chunk :: "JsonValue \<Rightarrow> ToolCallChunk" where
  "rawToolCall_chunk rawToolCall =
     (let f = get_prop rawToolCall ''function'' in
      ToolCallChunk (if nullish f then JUndefined else get_prop f ''name'')
                    (if nullish f then JUndefined else get_prop f ''arguments'')
                    (get_prop rawToolCall ''id'')
                    (get_prop rawToolCall ''index''))"

text \<open>\<^verbatim>\<open>_convertDeltaToMessageChunk\<close>.\<close>

definition convertDeltaToMessageChunk ::
  "dict \<Rightarrow> ChatCompletionChunk \<Rightarrow> JsonValue \<Rightarrow> bool \<Rightarrow> MessageChunk" where
  "convertDeltaToMessageChunk dlt rawResponse defaultRole includeRawResponse =
     (let role = nullish_or (prop_of dlt ''role'') defaultRole;
          cont = content_of_json (nullish_or (prop_of dlt ''content'') (JStr []));
          additional_kwargs0 =
            (if truthy (prop_of dlt ''function_call'')
               then [(''function_call'', prop_of dlt ''function_call'')]
             else if truthy (prop_of dlt ''tool_calls'')
               then [(''tool_calls'', prop_of dlt ''tool_calls'')]
             else []);
          additional_kwargs1 =
            (if includeRawResponse
               then set_key additional_kwargs0 ''__raw_response'' (response_json rawResponse)
             else additional_kwargs0)
      in if role = JStr ''user'' then new_chunk HumanChunk cont
         else if role = JStr ''assistant'' then
           (new_chunk AIChunk cont)
             \<lparr> tool_call_chunks :=
                 (case prop_of dlt ''tool_calls'' of
                    JArr raws \<Rightarrow> map rawToolCall_chunk raws
                  | _ \<Rightarrow> []),
               additional_kwargs := additional_kwargs1,
               id' := Some (response_id rawResponse) \<rparr>
         else if role = JStr ''system'' then new_chunk SystemChunk cont
         else if role = JStr ''function'' then
           (new_chunk FunctionChunk cont)
             \<lparr> additional_kwargs := additional_kwargs1,
               name := string_of_json (prop_of dlt ''name'') \<rparr>
         else if role = JStr ''tool'' then
           (new_chunk ToolChunk cont)
             \<lparr> additional_kwargs := additional_kwargs1,
               delta_tool_call_id := prop_of dlt ''tool_call_id'' \<rparr>
         else new_chunk (ChatChunk role) cont)"

text \<open>\<^verbatim>\<open>ChatGenerationChunk\<close>: \<^verbatim>\<open>{text, message, generationInfo}\<close>.\<close>

record ChatGenerationChunk =
  text' :: string
  message :: MessageChunk
  generationInfo :: "dict option"

subsection \<open>\<^verbatim>\<open>_streamResponseChunks\<close>\<close>

text \<open>
  What the generator reads from its options and from \<^verbatim>\<open>this\<close>: \<^verbatim>\<open>options.promptIndex\<close>,
  whether \<^verbatim>\<open>this.logprobs\<close> and \<^verbatim>\<open>this.__includeRawResponse\<close> are truthy, and whether
  \<^verbatim>\<open>options.signal\<close> is aborted when the stream has ended.
\<close>

record CallOptions =
  promptIndex :: "int option"
  logprobs_on :: bool
  includeRawResponse :: bool
  signal_aborted :: bool

text \<open>\<^verbatim>\<open>generationInfo\<close>: the token indices, then \<^verbatim>\<open>finish_reason\<close> and
  \<^verbatim>\<open>system_fingerprint\<close> when the choice has a finish reason, then \<^verbatim>\<open>logprobs\<close>.\<close>

definition generationInfo_of :: "CallOptions \<Rightarrow> ChatCompletionChunk \<Rightarrow> Choice \<Rightarrow> dict" where
  "generationInfo_of options data choice =
     (let newTokenIndices =
            [(''prompt'', JNum (case promptIndex options of None \<Rightarrow> 0 | Some i \<Rightarrow> i)),
             (''completion'', JNum (case index choice of None \<Rightarrow> 0 | Some i \<Rightarrow> i))];
          info1 =
            (case finish_reason choice of
               None \<Rightarrow> newTokenIndices
             | Some r \<Rightarrow>
                 set_key (set_key newTokenIndices ''finish_reason'' r)
                   ''system_fingerprint'' (system_fingerprint data))
      in if logprobs_on options then set_key info1 ''logprobs'' (logprobs choice) else info1)"

text \<open>
  The body of the \<^verbatim>\<open>for await\<close> loop after the usage update: the chunk it yields, if it
  does not \<^verbatim>\<open>continue\<close>, and the new \<^verbatim>\<open>defaultRole\<close>. The callback
  \<^verbatim>\<open>runManager?.handleLLMNewToken\<close> is outside the model.
\<close>

definition streamResponseChunks_body ::
  "CallOptions \<Rightarrow> ChatCompletionChunk \<Rightarrow> JsonValue \<Rightarrow> ChatGenerationChunk option \<times> JsonValue" where
  "streamResponseChunks_body options data defaultRole =
     (case choices data of
        [] \<Rightarrow> (None, defaultRole)
      | choice # _ \<Rightarrow>
          (case delta choice of
             None \<Rightarrow> (None, defaultRole)
           | Some d \<Rightarrow>
               (let chunk = convertDeltaToMessageChunk d data defaultRole (includeRawResponse options);
                    defaultRole1 = nullish_or (prop_of d ''role'') defaultRole
                in case content chunk of
                     Parts ps \<Rightarrow> (None, defaultRole1)
                   | Text t \<Rightarrow>
                       (Some \<lparr> text' = t, message = chunk,
                               generationInfo = Some (generationInfo_of options data choice) \<rparr>,
                        defaultRole1))))"

text \<open>The loop over the response chunks: the chunks yielded, and the last usage seen.\<close>

fun streamResponseChunks_loop ::
  "CallOptions \<Rightarrow> ChatCompletionChunk list \<Rightarrow> JsonValue \<Rightarrow> CompletionUsage option \<Rightarrow>
   ChatGenerationChunk list \<times> CompletionUsage option" where
  "streamResponseChunks_loop options [] defaultRole usage0 = ([], usage0)"
| "streamResponseChunks_loop options (data # rest) defaultRole usage0 =
     (let usage1 = (case usage data of None \<Rightarrow> usage0 | Some u \<Rightarrow> Some u);
          step = streamResponseChunks_body options data defaultRole;
          later = streamResponseChunks_loop options rest (snd step) usage1
      in (option_list (fst step) @ fst later, snd later))"

text \<open>The terminal chunk that carries the usage.\<close>

definition usage_chunk :: "CompletionUsage \<Rightarrow> ChatGenerationChunk" where
  "usage_chunk u =
     \<lparr> text' = [],
       message = (new_chunk AIChunk (Text []))
         \<lparr> usage_metadata := Some \<lparr> input_tokens = prompt_tokens u,
                                   output_tokens = completion_tokens u,
                                   total_tokens = total_tokens' u \<rparr> \<rparr>,
       generationInfo = None \<rparr>"

text \<open>
  \<^verbatim>\<open>_streamResponseChunks\<close> on a stream that delivers some response chunks and then ends
  or fails: the chunks yielded and the error thrown, if any. A failing stream ends the
  generator where it fails; a stream that ends is followed by the usage chunk and the
  abort check.
\<close>

definition streamResponseChunks ::
  "CallOptions \<Rightarrow> ChatCompletionChunk list \<times> error option \<Rightarrow>
   ChatGenerationChunk list \<times> error option" where
  "streamResponseChunks options stream =
     (let (chunks, usage1) = streamResponseChunks_loop options (fst stream) JUndefined None in
      case snd stream of
        Some e \<Rightarrow> (chunks, Some e)
      | None \<Rightarrow>
          (chunks @ (case usage1 of None \<Rightarrow> [] | Some u \<Rightarrow> [usage_chunk u]),
           if signal_aborted options then Some (Error ''AbortError'') else None))"

subsection \<open>Numbers as property keys\<close>

text \<open>
  \<^verbatim>\<open>finalChunks[index]\<close> uses the string of \<^verbatim>\<open>index\<close> as the key, and the final sort reads
  the keys back with \<^verbatim>\<open>parseInt\<close>. \<^verbatim>\<open>Number.prototype.toString\<close> prints an integer of
  magnitude below \<open>10\<^sup>2\<^sup>1\<close> in decimal digits and a larger one in exponent notation: the
  digits without their trailing zeros, a point after the first, and the exponent.
\<close>

definition digit_char :: "nat \<Rightarrow> char" where
  "digit_char d = ''0123456789'' ! (d mod 10)"

fun decimal :: "nat \<Rightarrow> string" where
  "decimal n = (if n < 10 then [digit_char n] else decimal (n div 10) @ [digit_char (n mod 10)])"

definition exponent_form :: "nat \<Rightarrow> string" where
  "exponent_form n =
     (let ds = decimal n in
      case rev (dropWhile (\<lambda>c. c = CHR ''0'') (rev ds)) of
        [] \<Rightarrow> ds
      | d # rest \<Rightarrow>
          d # (if rest = [] then [] else CHR ''.'' # rest) @ ''e+'' @ decimal (length ds - 1))"

definition magnitude_string :: "nat \<Rightarrow> string" where
  "magnitude_string n = (if n < 1000000000000000000000 then decimal n else exponent_form n)"

definition Number_toString :: "int \<Rightarrow> string" where
  "Number_toString n =
     (if n < 0 then CHR ''-'' # magnitude_string (nat (- n)) else magnitude_string (nat n))"

text \<open>The string of any value, as a property key is made from it: an array joins the
  strings of its elements, null and undefined elements counting as empty.\<close>

fun join_comma :: "string list \<Rightarrow> string" where
  "join_comma [] = []"
| "join_comma [s] = s"
| "join_comma (s # t # ss) = s @ CHR '','' # join_comma (t # ss)"

fun ToString :: "JsonValue \<Rightarrow> string" where
  "ToString JUndefined = ''undefined''"
| "ToString JNull = ''null''"
| "ToString (JBool b) = (if b then ''true'' else ''false'')"
| "ToString (JNum n) = Number_toString n"
| "ToString (JStr s) = s"
| "ToString (JArr xs) = join_comma (map (\<lambda>x. if nullish x then [] else ToString x) xs)"
| "ToString (JObj d) = ''[object Object]''"

text \<open>
  \<^verbatim>\<open>parseInt(s, 10)\<close>: leading white space is skipped, a sign is read, and the longest run
  of decimal digits that follows is the value; \<open>None\<close> is \<^verbatim>\<open>NaN\<close>, when there is no digit.
\<close>

definition is_digit :: "char \<Rightarrow> bool" where
  "is_digit c = (c \<in> set ''0123456789'')"

text \<open>The value of a digit is its place in \<^verbatim>\<open>0123456789\<close>.\<close>

definition digit_value :: "char \<Rightarrow> nat" where
  "digit_value c = length (takeWhile (\<lambda>x. x \<noteq> c) ''0123456789'')"

definition digits_value :: "string \<Rightarrow> nat" where
  "digits_value s = foldl (\<lambda>a c. 10 * a + digit_value c) 0 s"

definition is_space :: "char \<Rightarrow> bool" where
  "is_space c = (c \<in> set [CHR '' '', CHR 0x09, CHR 0x0A, CHR 0x0B, CHR 0x0C, CHR 0x0D])"

definition parseInt :: "string \<Rightarrow> int option" where
  "parseInt s =
     (let t = dropWhile is_space s;
          negative = (case t of [] \<Rightarrow> False | c # r \<Rightarrow> c = CHR ''-'');
          u = (case t of [] \<Rightarrow> [] | c # r \<Rightarrow> if c = CHR ''-'' \<or> c = CHR ''+'' then r else t);
          ds = takeWhile is_digit u
      in if ds = [] then None
         else Some (if negative then - int (digits_value ds) else int (digits_value ds)))"

text \<open>
  A key is an array index when it is the decimal string of an integer from 0 to
  \<open>2\<^sup>3\<^sup>2 - 2\<close>, without leading zeros.
\<close>

definition array_index :: "string \<Rightarrow> nat option" where
  "array_index k =
     (if k \<noteq> [] \<and> list_all is_digit k \<and> (k = ''0'' \<or> take 1 k \<noteq> ''0'')
         \<and> digits_value k < 4294967295
      then Some (digits_value k) else None)"

subsection \<open>\<^verbatim>\<open>_generate\<close>, streaming branch\<close>

text \<open>\<^verbatim>\<open>(chunk.generationInfo as NewTokenIndices)?.completion ?? 0\<close>.\<close>

definition completion_index :: "dict option \<Rightarrow> JsonValue" where
  "completion_index info =
     (case info of
        None \<Rightarrow> JNum 0
      | Some d \<Rightarrow> nullish_or (prop_of d ''completion'') (JNum 0))"

text \<open>\<^verbatim>\<open>chunk.message.response_metadata = {...chunk.generationInfo,
  ...chunk.message.response_metadata}\<close>.\<close>

definition with_generationInfo :: "ChatGenerationChunk \<Rightarrow> ChatGenerationChunk" where
  "with_generationInfo chunk =
     chunk\<lparr>message := (message chunk)
       \<lparr>response_metadata :=
          spread (case generationInfo chunk of None \<Rightarrow> [] | Some d \<Rightarrow> d)
                 (response_metadata (message chunk))\<rparr>\<rparr>"

text \<open>
  The loop over the stream. \<^verbatim>\<open>finalChunks\<close> is an object, kept as an association list in
  insertion order under the string keys of the indices; \<open>AList.update\<close> is the assignment
  \<^verbatim>\<open>finalChunks[index] = ...\<close>. The merge \<^verbatim>\<open>ChatGenerationChunk.concat\<close> is a parameter.
\<close>

fun generate_loop ::
  "(ChatGenerationChunk \<Rightarrow> ChatGenerationChunk \<Rightarrow> ChatGenerationChunk) \<Rightarrow>
   ChatGenerationChunk list \<Rightarrow> (string \<times> ChatGenerationChunk) list \<Rightarrow>
   (string \<times> ChatGenerationChunk) list" where
  "generate_loop concat_chunk [] finalChunks = finalChunks"
| "generate_loop concat_chunk (chunk # rest) finalChunks =
     (let chunk1 = with_generationInfo chunk;
          k = ToString (completion_index (generationInfo chunk1))
      in generate_loop concat_chunk rest
           (AList.update k
              (case map_of finalChunks k of
                 None \<Rightarrow> chunk1
               | Some existing \<Rightarrow> concat_chunk existing chunk1)
              finalChunks))"

text \<open>
  \<^verbatim>\<open>Object.entries\<close> lists the keys that are array indices in ascending order, then the
  other keys in insertion order.
\<close>

definition array_index_value :: "string \<Rightarrow> nat" where
  "array_index_value k = (case array_index k of None \<Rightarrow> 0 | Some n \<Rightarrow> n)"

definition object_entries :: "(string \<times> 'v) list \<Rightarrow> (string \<times> 'v) list" where
  "object_entries obj =
     sort_key (\<lambda>e. array_index_value (fst e)) (filter (\<lambda>e. array_index (fst e) \<noteq> None) obj)
     @ filter (\<lambda>e. array_index (fst e) = None) obj"

text \<open>
  The comparator \<^verbatim>\<open>parseInt(aKey, 10) - parseInt(bKey, 10)\<close> of a stable sort orders the
  entries by the number \<^verbatim>\<open>parseInt\<close> reads from their key. Every key here is the string of
  an index; for a key without digits the comparator returns \<^verbatim>\<open>NaN\<close>, which the sort takes
  as equal, and the key is placed as 0.
\<close>

definition parsed_key :: "string \<Rightarrow> int" where
  "parsed_key k = (case parseInt k of None \<Rightarrow> 0 | Some n \<Rightarrow> n)"

text \<open>
  The generations of the streaming branch: the entries sorted by \<^verbatim>\<open>parseInt\<close> of their
  key, values only. An error of the stream leaves \<^verbatim>\<open>_generate\<close> through the \<^verbatim>\<open>for await\<close>.
  The token estimates that follow are outside the model.
\<close>

definition generate_stream ::
  "(ChatGenerationChunk \<Rightarrow> ChatGenerationChunk \<Rightarrow> ChatGenerationChunk) \<Rightarrow>
   ChatGenerationChunk list \<times> error option \<Rightarrow> error + ChatGenerationChunk list" where
  "generate_stream concat_chunk stream =
     (case snd stream of
        Some e \<Rightarrow> Inl e
      | None \<Rightarrow>
          Inr (map snd (sort_key (\<lambda>e. parsed_key (fst e))
                 (object_entries (generate_loop concat_chunk (fst stream) [])))))"

definition generate_streaming ::
  "(ChatGenerationChunk \<Rightarrow> ChatGenerationChunk \<Rightarrow> ChatGenerationChunk) \<Rightarrow> CallOptions \<Rightarrow>
   ChatCompletionChunk list \<times> error option \<Rightarrow> error + ChatGenerationChunk list" where
  "generate_streaming concat_chunk options stream =
     generate_stream concat_chunk (streamResponseChunks options stream)"

subsection \<open>Vocabulary for the properties of the aggregation\<close>

text \<open>
  The stream index of a fragment, read off the fragment itself: the number it carries as
  \<^verbatim>\<open>completion\<close> in its generation info, 0 when it carries none (no generation info, no
  such entry, or a null one), and no index when what it carries is not a number.
\<close>

definition stream_index :: "ChatGenerationChunk \<Rightarrow> int option" where
  "stream_index chunk =
     (case generationInfo chunk of
        None \<Rightarrow> Some 0
      | Some info \<Rightarrow>
          (case map_of info ''completion'' of
             None \<Rightarrow> Some 0
           | Some JUndefined \<Rightarrow> Some 0
           | Some JNull \<Rightarrow> Some 0
           | Some (JNum n) \<Rightarrow> Some n
           | Some v \<Rightarrow> None))"

text \<open>A fragment whose stream index is an integer of magnitude below \<open>10\<^sup>2\<^sup>1\<close>.\<close>

definition small_index :: "ChatGenerationChunk \<Rightarrow> bool" where
  "small_index chunk =
     (case stream_index chunk of None \<Rightarrow> False | Some i \<Rightarrow> \<bar>i\<bar> < 1000000000000000000000)"

text \<open>The fragments of one stream index in arrival order, as the loop merges them, the
  fold of a group seeded with its first fragment, and the indices that occur, ascending.\<close>

definition group_of :: "int \<Rightarrow> ChatGenerationChunk list \<Rightarrow> ChatGenerationChunk list" where
  "group_of i chunks = map with_generationInfo (filter (\<lambda>c. stream_index c = Some i) chunks)"

fun merge_group :: "('a \<Rightarrow> 'a \<Rightarrow> 'a) \<Rightarrow> 'a list \<Rightarrow> 'a option" where
  "merge_group f [] = None"
| "merge_group f (c # cs) = Some (foldl f c cs)"

definition ascending_indices :: "ChatGenerationChunk list \<Rightarrow> int list" where
  "ascending_indices chunks = sort (remdups (List.map_filter stream_index chunks))"

text \<open>The key under which the loop files a chunk, and the chunks filed under one key.\<close>

definition chunk_key :: "ChatGenerationChunk \<Rightarrow> string" where
  "chunk_key chunk = ToString (completion_index (generationInfo chunk))"

definition group_by_key :: "string \<Rightarrow> ChatGenerationChunk list \<Rightarrow> ChatGenerationChunk list" where
  "group_by_key k chunks = map with_generationInfo (filter (\<lambda>c. chunk_key c = k) chunks)"

text \<open>A chunk with text \<open>t\<close> that carries the stream index \<open>i\<close>; the delivery order 1, 0, 1,
  0; and an index of \<open>10\<^sup>2\<^sup>1\<close> delivered after index 2.\<close>

definition chunk_at :: "int \<Rightarrow> string \<Rightarrow> ChatGenerationChunk" where
  "chunk_at i t =
     \<lparr> text' = t, message = new_chunk AIChunk (Text t),
       generationInfo = Some [(''prompt'', JNum 0), (''completion'', JNum i)] \<rparr>"

definition interleaved_chunks :: "ChatGenerationChunk list" where
  "interleaved_chunks = [chunk_at 1 ''a'', chunk_at 0 ''b'', chunk_at 1 ''c'', chunk_at 0 ''d'']"

text \<open>The usage last delivered by the stream, and whether a chunk carries usage.\<close>

definition last_usage :: "ChatCompletionChunk list \<Rightarrow> CompletionUsage option" where
  "last_usage datas = first_some (rev (map usage datas))"

definition with_usage :: "ChatGenerationChunk \<Rightarrow> bool" where
  "with_usage chunk = (usage_metadata (message chunk) \<noteq> None)"

text \<open>
  Modelled from the spec: \<^verbatim>\<open>ChatGenerationChunk.concat\<close> and the \<^verbatim>\<open>concat\<close> of the message
  chunks (\<^verbatim>\<open>@langchain/core\<close>) are not among the sources. Section 4.2: content and the
  argument and name texts of tool call pieces of one index concatenate, the id of a piece
  and of a message keeps the first non-null value, metadata maps merge key-wise, the
  later non-null usage replaces the earlier. A piece whose index the receiver does not
  have yet is appended. Used for concrete instances only.
\<close>

fun str_concat :: "JsonValue \<Rightarrow> JsonValue \<Rightarrow> JsonValue" where
  "str_concat (JStr s) (JStr t) = JStr (s @ t)"
| "str_concat x y = (if nullish x then y else x)"

fun tool_call_index :: "ToolCallChunk \<Rightarrow> JsonValue" where
  "tool_call_index (ToolCallChunk n a i x) = x"

fun merge_piece :: "ToolCallChunk \<Rightarrow> ToolCallChunk \<Rightarrow> ToolCallChunk" where
  "merge_piece (ToolCallChunk n1 a1 i1 x1) (ToolCallChunk n2 a2 i2 x2) =
     ToolCallChunk (str_concat n1 n2) (str_concat a1 a2) (if nullish i1 then i2 else i1) x1"

fun route_piece :: "ToolCallChunk \<Rightarrow> ToolCallChunk list \<Rightarrow> ToolCallChunk list" where
  "route_piece p [] = [p]"
| "route_piece p (q # qs) =
     (if tool_call_index q = tool_call_index p then merge_piece q p # qs
      else q # route_piece p qs)"

definition merge_tool_call_chunks :: "ToolCallChunk list \<Rightarrow> ToolCallChunk list \<Rightarrow> ToolCallChunk list" where
  "merge_tool_call_chunks left right = foldl (\<lambda>acc p. route_piece p acc) left right"

definition concat_message :: "MessageChunk \<Rightarrow> MessageChunk \<Rightarrow> MessageChunk" where
  "concat_message a b =
     a\<lparr> content := mergeContent (content a) (content b),
        additional_kwargs := mergeDicts (additional_kwargs a) (additional_kwargs b),
        response_metadata := mergeDicts (response_metadata a) (response_metadata b),
        id' := (case id' a of None \<Rightarrow> id' b | Some i \<Rightarrow> Some i),
        tool_call_chunks := merge_tool_call_chunks (tool_call_chunks a) (tool_call_chunks b),
        usage_metadata := (case usage_metadata b of None \<Rightarrow> usage_metadata a | Some u \<Rightarrow> Some u) \<rparr>"

definition concat_generation :: "ChatGenerationChunk \<Rightarrow> ChatGenerationChunk \<Rightarrow> ChatGenerationChunk" where
  "concat_generation a b =
     \<lparr> text' = text' a @ text' b,
       message = concat_message (message a) (message b),
       generationInfo =
         (case generationInfo a of
            None \<Rightarrow> generationInfo b
          | Some d \<Rightarrow> (case generationInfo b of None \<Rightarrow> Some d | Some e \<Rightarrow> Some (mergeDicts d e))) \<rparr>"

text \<open>A plain content chunk without generation info (default index), and a tool call chunk
  that carries index 0 explicitly.\<close>

definition plain_chunk :: ChatGenerationChunk where
  "plain_chunk = \<lparr> text' = ''Hello'', message = new_chunk AIChunk (Text ''Hello''), generationInfo = None \<rparr>"

definition tool_chunk :: ChatGenerationChunk where
  "tool_chunk =
     \<lparr> text' = [],
       message = (new_chunk AIChunk (Text []))
         \<lparr> tool_call_chunks := [ToolCallChunk (JStr ''foo'') (JStr ''{}'') (JStr ''call_1'') (JNum 0)] \<rparr>,
       generationInfo = Some [(''prompt'', JNum 0), (''completion'', JNum 0)] \<rparr>"

section \<open>Properties of the merge\<close>

lemma mergeDicts_Nil_right: "mergeDicts m [] = m"
  by (induction m) auto

lemma mergeDicts_Nil_left: "mergeDicts [] n = n"
  by simp

lemma mergeObj_undefined_right: "mergeObj x JUndefined = x"
  by (cases x) simp_all

lemma mergeContent_absent_right: "mergeContent c (Text []) = c"
  by (cases c) simp_all

lemma mergeContent_absent_left: "mergeContent (Text []) c = c"
  by (cases c) simp_all

lemma mergeStatus_None_left: "mergeStatus None s = s"
  by (cases s) simp_all

lemma id_concat: "id' (concat_tool a b) = (case id' a of None \<Rightarrow> id' b | Some i \<Rightarrow> Some i)"
  by (simp add: concat_tool_def)

lemma status_concat: "status (concat_tool a b) = mergeStatus (status a) (status b)"
  by (simp add: concat_tool_def)

lemma first_some_Cons:
  "first_some (x # xs) = (case x of None \<Rightarrow> first_some xs | Some i \<Rightarrow> Some i)"
  by (cases x) simp_all

lemma id_foldl: "id' (foldl concat_tool a cs) = first_some (id' a # map id' cs)"
  by (induction cs arbitrary: a) (simp_all add: id_concat first_some_Cons split: option.splits)

lemma first_some_append_Some: "first_some xs = Some i \<Longrightarrow> first_some (xs @ ys) = Some i"
  by (induction xs rule: first_some.induct) auto

subsection \<open>Associativity\<close>

declare mergeDicts.simps [simp del] same_shape_dict.simps [simp del]

lemma mergeContent_assoc:
  "same_kind a b \<Longrightarrow> same_kind b c \<Longrightarrow> same_kind a c \<Longrightarrow>
   mergeContent (mergeContent a b) c = mergeContent a (mergeContent b c)"
  by (cases a; cases b; cases c) (simp_all split: if_splits)

lemma mergeStatus_assoc: "mergeStatus (mergeStatus a b) c = mergeStatus a (mergeStatus b c)"
  by (cases c; cases b) simp_all

lemma mergeDicts_alt:
  "mergeDicts m n = map (merge_entry n) m @ filter (\<lambda>e. map_of m (fst e) = None) n"
  by (simp add: mergeDicts.simps merge_entry_def case_prod_unfold)

lemma fst_merge_entry: "fst (merge_entry n e) = fst e"
  by (cases e) (simp add: merge_entry_def)

lemma map_of_map_merge_entry:
  "map_of (map (merge_entry o') n) k =
     map_option (\<lambda>w. case map_of o' k of None \<Rightarrow> w | Some u \<Rightarrow> mergeObj w u) (map_of n k)"
  by (induction n) (auto simp: merge_entry_def split: option.splits)

lemma map_of_filter_absent:
  "map_of (filter (\<lambda>e. map_of n (fst e) = None) o') k =
     (if map_of n k = None then map_of o' k else None)"
  by (induction o') auto

lemma map_of_mergeDicts:
  "map_of (mergeDicts n o') k =
     (case map_of n k of
        None \<Rightarrow> map_of o' k
      | Some w \<Rightarrow> Some (case map_of o' k of None \<Rightarrow> w | Some u \<Rightarrow> mergeObj w u))"
  by (simp add: mergeDicts_alt map_of_map_merge_entry map_of_filter_absent
      map_add_def split: option.splits)

lemma filter_map_merge_entry:
  "filter (\<lambda>e. P (fst e)) (map (merge_entry o') n) = map (merge_entry o') (filter (\<lambda>e. P (fst e)) n)"
  by (induction n) (simp_all add: fst_merge_entry)

lemma merge_entry_twice:
  assumes "\<And>w u. map_of n (fst e) = Some w \<Longrightarrow> map_of o' (fst e) = Some u \<Longrightarrow>
             mergeObj (mergeObj (snd e) w) u = mergeObj (snd e) (mergeObj w u)"
  shows "merge_entry o' (merge_entry n e) = merge_entry (mergeDicts n o') e"
  using assms by (cases e) (auto simp: merge_entry_def map_of_mergeDicts split: option.splits)

lemma mergeDicts_assoc_aux:
  assumes "\<And>k v w u. (k, v) \<in> set m \<Longrightarrow> map_of n k = Some w \<Longrightarrow> map_of o' k = Some u \<Longrightarrow>
             mergeObj (mergeObj v w) u = mergeObj v (mergeObj w u)"
  shows "mergeDicts (mergeDicts m n) o' = mergeDicts m (mergeDicts n o')"
proof -
  have head: "map (merge_entry o') (map (merge_entry n) m) = map (merge_entry (mergeDicts n o')) m"
  proof -
    have "merge_entry o' (merge_entry n e) = merge_entry (mergeDicts n o') e" if "e \<in> set m" for e
      using that assms[of "fst e" "snd e"] by (intro merge_entry_twice) simp
    then show ?thesis by simp
  qed
  have absent: "map_of (mergeDicts m n) k = None \<longleftrightarrow> map_of m k = None \<and> map_of n k = None" for k
    by (simp add: map_of_mergeDicts split: option.splits)
  have tail: "filter (\<lambda>e. map_of (mergeDicts m n) (fst e) = None) o'
      = filter (\<lambda>e. map_of m (fst e) = None) (filter (\<lambda>e. map_of n (fst e) = None) o')"
    by (simp add: absent conj_commute)
  have mid: "filter (\<lambda>e. map_of m (fst e) = None) (mergeDicts n o')
      = map (merge_entry o') (filter (\<lambda>e. map_of m (fst e) = None) n)
        @ filter (\<lambda>e. map_of m (fst e) = None) (filter (\<lambda>e. map_of n (fst e) = None) o')"
    unfolding mergeDicts_alt[of n o'] filter_append
    by (simp only: filter_map_merge_entry[of "\<lambda>k. map_of m k = None"])
  have "mergeDicts (mergeDicts m n) o'
      = map (merge_entry o') (mergeDicts m n)
        @ filter (\<lambda>e. map_of (mergeDicts m n) (fst e) = None) o'"
    by (rule mergeDicts_alt)
  also have "map (merge_entry o') (mergeDicts m n)
      = map (merge_entry o') (map (merge_entry n) m @ filter (\<lambda>e. map_of m (fst e) = None) n)"
    by (simp only: mergeDicts_alt[of m n])
  also have "\<dots> @ filter (\<lambda>e. map_of (mergeDicts m n) (fst e) = None) o' = map (merge_entry (mergeDicts n o')) m
        @ map (merge_entry o') (filter (\<lambda>e. map_of m (fst e) = None) n)
        @ filter (\<lambda>e. map_of m (fst e) = None) (filter (\<lambda>e. map_of n (fst e) = None) o')"
    unfolding tail map_append head by simp
  also have "\<dots> = mergeDicts m (mergeDicts n o')"
    by (subst mergeDicts_alt[of m "mergeDicts n o'"]) (simp only: mid)
  finally show ?thesis .
qed

lemma same_shape_dictD:
  "same_shape_dict m n \<Longrightarrow> (k, v) \<in> set m \<Longrightarrow> map_of n k = Some w \<Longrightarrow> same_shape v w"
  by (auto simp: same_shape_dict.simps list_all_iff)

lemma mergeObj_scalar_assoc:
  "shape x \<noteq> ShObj \<Longrightarrow> same_shape x y \<Longrightarrow> same_shape y z \<Longrightarrow> same_shape x z \<Longrightarrow>
   mergeObj (mergeObj x y) z = mergeObj x (mergeObj y z)"
  by (cases x; cases y; cases z) simp_all

lemma mergeObj_assoc:
  "same_shape x y \<Longrightarrow> same_shape y z \<Longrightarrow> same_shape x z \<Longrightarrow>
   mergeObj (mergeObj x y) z = mergeObj x (mergeObj y z)"
proof (induction x arbitrary: y z)
  case (JObj m)
  show ?case
  proof (cases "\<exists>n o'. y = JObj n \<and> z = JObj o'")
    case True
    then obtain n o' where yo: "y = JObj n" and zo: "z = JObj o'" by blast
    have "mergeDicts (mergeDicts m n) o' = mergeDicts m (mergeDicts n o')"
    proof (rule mergeDicts_assoc_aux)
      fix k v w u
      assume kv: "(k, v) \<in> set m" and w: "map_of n k = Some w" and u: "map_of o' k = Some u"
      have "(k, w) \<in> set n" using w by (rule map_of_SomeD)
      with JObj.prems yo zo kv w u
      have "same_shape v w" "same_shape w u" "same_shape v u"
        by (auto dest: same_shape_dictD)
      with JObj.IH[of "(k, v)" v w u] kv
      show "mergeObj (mergeObj v w) u = mergeObj v (mergeObj w u)" by simp
    qed
    with yo zo show ?thesis by simp
  next
    case False
    with JObj.prems show ?thesis
      by (cases y; cases z) simp_all
  qed
qed (simp_all add: mergeObj_scalar_assoc)

lemma mergeDicts_assoc:
  assumes "same_shape_dict m n" "same_shape_dict n o'" "same_shape_dict m o'"
  shows "mergeDicts (mergeDicts m n) o' = mergeDicts m (mergeDicts n o')"
proof (rule mergeDicts_assoc_aux)
  fix k v w u
  assume kv: "(k, v) \<in> set m" and w: "map_of n k = Some w" and u: "map_of o' k = Some u"
  have "(k, w) \<in> set n" using w by (rule map_of_SomeD)
  with assms kv w u have "same_shape v w" "same_shape w u" "same_shape v u"
    by (auto dest: same_shape_dictD)
  then show "mergeObj (mergeObj v w) u = mergeObj v (mergeObj w u)" by (rule mergeObj_assoc)
qed

lemma id_assoc:
  "(case (case a of None \<Rightarrow> b | Some i \<Rightarrow> Some i) of None \<Rightarrow> c | Some i \<Rightarrow> Some i)
   = (case a of None \<Rightarrow> (case b of None \<Rightarrow> c | Some i \<Rightarrow> Some i) | Some i \<Rightarrow> Some (i::string))"
  by (cases a) simp_all


text \<open>
  C1 (as amended). Merging is associative for three chunks that agree pairwise in the
  kind of their content and in the shape of their metadata maps and artifacts:
  \<open>concat (concat A B) C = concat A (concat B C)\<close>, every field included. (The chunk has
  no stream index of its own; \<^verbatim>\<open>tool_call_id\<close> is always the receiver's.)
\<close>

theorem concat_tool_assoc_same_shape:
  assumes "mergeable A B" "mergeable B C" "mergeable A C"
  shows "concat_tool (concat_tool A B) C = concat_tool A (concat_tool B C)"
proof -
  have c: "mergeContent (mergeContent (content A) (content B)) (content C)
      = mergeContent (content A) (mergeContent (content B) (content C))"
    using assms by (intro mergeContent_assoc) (simp_all add: mergeable_def)
  have k: "mergeDicts (mergeDicts (additional_kwargs A) (additional_kwargs B)) (additional_kwargs C)
      = mergeDicts (additional_kwargs A) (mergeDicts (additional_kwargs B) (additional_kwargs C))"
    using assms by (intro mergeDicts_assoc) (simp_all add: mergeable_def)
  have r: "mergeDicts (mergeDicts (response_metadata A) (response_metadata B)) (response_metadata C)
      = mergeDicts (response_metadata A) (mergeDicts (response_metadata B) (response_metadata C))"
    using assms by (intro mergeDicts_assoc) (simp_all add: mergeable_def)
  have a: "mergeObj (mergeObj (artifact A) (artifact B)) (artifact C)
      = mergeObj (artifact A) (mergeObj (artifact B) (artifact C))"
    using assms by (intro mergeObj_assoc) (simp_all add: mergeable_def)
  show ?thesis
    by (simp add: concat_tool_def c k r a mergeStatus_assoc split: option.splits)
qed

theorem concat_tool_assoc_same_shape_witness:
  "mergeable chunkA chunkB \<and> mergeable chunkB chunkC \<and> mergeable chunkA chunkC
   \<and> concat_tool (concat_tool chunkA chunkB) chunkC = concat_tool chunkA (concat_tool chunkB chunkC)"
proof -
  have ab: "mergeable chunkA chunkB"
    by (simp add: mergeable_def chunkA_def chunkB_def same_shape_dict.simps)
  have bc: "mergeable chunkB chunkC"
    by (simp add: mergeable_def chunkB_def chunkC_def same_shape_dict.simps)
  have ac: "mergeable chunkA chunkC"
    by (simp add: mergeable_def chunkA_def chunkC_def same_shape_dict.simps)
  show ?thesis
    using ab bc ac concat_tool_assoc_same_shape[OF ab bc ac] by simp
qed

text \<open>
  C1 as stated fails: two texts followed by a part list. Merged from the left the texts
  are first joined into one part \<open>''ab''\<close>; merged from the right they stay two parts.
\<close>

theorem concat_tool_assoc_counterexample:
  "concat_tool (concat_tool
      ((absent_chunk ''call_1'')\<lparr>content := Text ''a''\<rparr>)
      ((absent_chunk ''call_1'')\<lparr>content := Text ''b''\<rparr>))
      ((absent_chunk ''call_1'')\<lparr>content := Parts [JObj [(''type'', JStr ''image_url'')]]\<rparr>)
   \<noteq> concat_tool
      ((absent_chunk ''call_1'')\<lparr>content := Text ''a''\<rparr>)
      (concat_tool ((absent_chunk ''call_1'')\<lparr>content := Text ''b''\<rparr>)
      ((absent_chunk ''call_1'')\<lparr>content := Parts [JObj [(''type'', JStr ''image_url'')]]\<rparr>))"
  by (simp add: concat_tool_def absent_chunk_def text_part_def)

subsection \<open>Identity, status and id\<close>

text \<open>
  C5 (as amended). Merging with the all-absent chunk, on either side, leaves the content,
  the metadata maps, the artifact, the status and the id of \<open>A\<close> unchanged. The
  \<^verbatim>\<open>tool_call_id\<close> of the result is the receiver's: that of \<open>A\<close> in \<open>concat A empty\<close>, that
  of the all-absent chunk in \<open>concat empty A\<close>.
\<close>

theorem concat_tool_absent_identity:
  "content (concat_tool A (absent_chunk t)) = content A
   \<and> additional_kwargs (concat_tool A (absent_chunk t)) = additional_kwargs A
   \<and> response_metadata (concat_tool A (absent_chunk t)) = response_metadata A
   \<and> artifact (concat_tool A (absent_chunk t)) = artifact A
   \<and> status (concat_tool A (absent_chunk t)) = status A
   \<and> id' (concat_tool A (absent_chunk t)) = id' A
   \<and> tool_call_id (concat_tool A (absent_chunk t)) = tool_call_id A
   \<and> content (concat_tool (absent_chunk t) A) = content A
   \<and> additional_kwargs (concat_tool (absent_chunk t) A) = additional_kwargs A
   \<and> response_metadata (concat_tool (absent_chunk t) A) = response_metadata A
   \<and> artifact (concat_tool (absent_chunk t) A) = artifact A
   \<and> status (concat_tool (absent_chunk t) A) = status A
   \<and> id' (concat_tool (absent_chunk t) A) = id' A
   \<and> tool_call_id (concat_tool (absent_chunk t) A) = t"
  by (simp add: concat_tool_def absent_chunk_def mergeDicts_Nil_right
      mergeObj_undefined_right mergeContent_absent_right mergeContent_absent_left
      mergeDicts_Nil_left mergeStatus_None_left del: mergeDicts.simps split: option.splits)

text \<open>
  C5 as stated fails: the all-absent chunk on the left puts its own \<^verbatim>\<open>tool_call_id\<close> on
  the result.
\<close>

theorem concat_tool_left_identity_counterexample:
  "concat_tool (absent_chunk [])
     \<lparr> content = Text ''42'', name = None, additional_kwargs = [], response_metadata = [],
       id' = None, tool_call_id = ''call_1'', status = None, artifact = JUndefined \<rparr>
   \<noteq> \<lparr> content = Text ''42'', name = None, additional_kwargs = [], response_metadata = [],
       id' = None, tool_call_id = ''call_1'', status = None, artifact = JUndefined \<rparr>"
  by (simp add: concat_tool_def absent_chunk_def)

text \<open>
  C6. The status of a merge is the later chunk's status when that is defined, and the
  earlier chunk's status otherwise.
\<close>

theorem status_later_defined_wins:
  "status (concat_tool a b) = (case status b of Some s \<Rightarrow> Some s | None \<Rightarrow> status a)"
  by (simp add: status_concat split: option.splits)

text \<open>
  C7. The id of a fold is the first id present among its chunks in delivery order, and
  once a fold has an id, merging further chunks keeps it.
\<close>

theorem id_first_non_null_wins:
  "id' (concat_all first rest) = first_some (map id' (first # rest))
   \<and> (id' (concat_all first rest) = Some i \<longrightarrow>
        id' (concat_all first (rest @ later)) = Some i)"
  unfolding concat_all_def id_foldl
  using first_some_append_Some[of "id' first # map id' rest" i "map id' later"] by simp

theorem id_first_non_null_wins_witness:
  "id' (concat_all chunkA [chunkB]) = first_some (map id' [chunkA, chunkB])
   \<and> id' (concat_all chunkA [chunkB]) = Some ''id1''
   \<and> id' (concat_all chunkA ([chunkB] @ [chunkC])) = Some ''id1''"
proof -
  have h: "id' (concat_all chunkA [chunkB]) = Some ''id1''"
    by (simp add: concat_all_def id_concat chunkA_def chunkB_def)
  show ?thesis
    using h id_first_non_null_wins[of chunkA "[chunkB]" "''id1''" "[chunkC]"] by simp
qed

section \<open>Properties of the wrapper\<close>

lemma next_completed:
  "completed g \<Longrightarrow> consumeIteratorInContext_next ctx nx g w = ((Inr Done, g), w)"
  by (simp add: consumeIteratorInContext_next_def)

lemma pulls_completed:
  "completed g \<Longrightarrow> pulls (consumeIteratorInContext_next ctx nx) n g w = (replicate n (Inr Done), g, w)"
  by (induction n) (simp_all add: next_completed)

lemma next_live:
  "\<not> completed g \<Longrightarrow> consumeIteratorInContext_next ctx nx g w =
     (let (r, s') = nx (effective ctx w) (iter_state g)
      in ((r, \<lparr>completed = \<not> is_value r, iter_state = s'\<rparr>), w\<lparr>installs := Suc (installs w)\<rparr>))"
  by (cases w) (auto simp: consumeIteratorInContext_next_def runWithConfig_def effective_def Let_def
      split: prod.splits sum.splits IteratorResult.splits option.splits)

lemma fst_pulls_Suc:
  "fst (pulls pull (Suc n) g w) =
     fst (fst (pull g w)) # fst (pulls pull n (snd (fst (pull g w))) (snd (pull g w)))"
  by (simp add: split_beta)

lemma snd_pulls_Suc:
  "snd (pulls pull (Suc n) g w) = snd (pulls pull n (snd (fst (pull g w))) (snd (pull g w)))"
  by (simp add: split_beta)

lemma length_pulls: "length (fst (pulls pull n g w)) = n"
  by (induction n arbitrary: g w) (simp_all add: fst_pulls_Suc del: pulls.simps(2))

lemma effective_installs [simp]: "effective ctx (w\<lparr>installs := k\<rparr>) = effective ctx w"
  by (simp add: effective_def split: option.splits)

lemma live_pulls_stop_after_end: "live_pulls (stop_after_end rs) = live_pulls rs"
  by (induction rs) simp_all

lemma sync_results:
  "fst (pulls (consumeIteratorInContext_next ctx nx) n \<lparr>completed = False, iter_state = s\<rparr> w)
     = stop_after_end (fst (pulls (direct_next (effective ctx w) nx) n s ()))
   \<and> snd (snd (pulls (consumeIteratorInContext_next ctx nx) n \<lparr>completed = False, iter_state = s\<rparr> w))
     = w\<lparr>installs := installs w + live_pulls (fst (pulls (direct_next (effective ctx w) nx) n s ()))\<rparr>"
proof (induction n arbitrary: s w)
  case 0
  show ?case by simp
next
  case (Suc n)
  obtain r s' where step: "nx (effective ctx w) s = (r, s')" by (cases "nx (effective ctx w) s")
  let ?w' = "w\<lparr>installs := Suc (installs w)\<rparr>"
  have nxt: "consumeIteratorInContext_next ctx nx \<lparr>completed = False, iter_state = s\<rparr> w
      = ((r, \<lparr>completed = \<not> is_value r, iter_state = s'\<rparr>), ?w')"
    by (simp add: next_live step)
  have dir: "direct_next (effective ctx w) nx s () = ((r, s'), ())"
    by (simp add: direct_next_def step)
  show ?case
  proof (cases "is_value r")
    case True
    with Suc.IH[of s' "?w'"] show ?thesis
      by (simp add: fst_pulls_Suc snd_pulls_Suc nxt dir del: pulls.simps(2))
  next
    case False
    have len: "length (fst (pulls (direct_next (effective ctx w) nx) n s' ())) = n"
      by (rule length_pulls)
    from False show ?thesis
      by (simp add: fst_pulls_Suc snd_pulls_Suc nxt dir pulls_completed len map_replicate_const
          del: pulls.simps(2))
  qed
qed

lemma async_next_completed:
  "completed g \<Longrightarrow>
   consumeAsyncIterableInContext_next ctx ai nxo iter (g, h) w = ((Inr Done, (g, h)), w)"
  by (simp add: consumeAsyncIterableInContext_next_def)

lemma async_pulls_completed:
  "completed g \<Longrightarrow>
   pulls (consumeAsyncIterableInContext_next ctx ai nxo iter) n (g, h) w
     = (replicate n (Inr Done), (g, h), w)"
  by (induction n) (simp_all add: async_next_completed)

lemma async_next_live:
  "\<not> completed g \<Longrightarrow>
   consumeAsyncIterableInContext_next ctx ai nxo iter (g, h) w =
     (let (it, h0) = (case iter_state g of None \<Rightarrow> ai h iter | Some it \<Rightarrow> (it, h));
          (r, h') = nxo it iter (effective ctx w) h0
      in ((r, (\<lparr>completed = \<not> is_value r, iter_state = Some it\<rparr>, h')),
          w\<lparr>installs := Suc (installs w)\<rparr>))"
  by (cases w)
     (auto simp: consumeAsyncIterableInContext_next_def runWithConfig_def effective_def Let_def
      split: prod.splits sum.splits IteratorResult.splits option.splits)

lemma async_results_started:
  "fst (pulls (consumeAsyncIterableInContext_next ctx ai nxo iter) n
          (\<lparr>completed = False, iter_state = Some it\<rparr>, h) w)
     = stop_after_end (fst (pulls (direct_next (effective ctx w) (nxo it iter)) n h ()))
   \<and> snd (snd (pulls (consumeAsyncIterableInContext_next ctx ai nxo iter) n
          (\<lparr>completed = False, iter_state = Some it\<rparr>, h) w))
     = w\<lparr>installs := installs w
          + live_pulls (fst (pulls (direct_next (effective ctx w) (nxo it iter)) n h ()))\<rparr>"
proof (induction n arbitrary: h w)
  case 0
  show ?case by simp
next
  case (Suc n)
  obtain r h' where step: "nxo it iter (effective ctx w) h = (r, h')"
    by (cases "nxo it iter (effective ctx w) h")
  let ?w' = "w\<lparr>installs := Suc (installs w)\<rparr>"
  have nxt: "consumeAsyncIterableInContext_next ctx ai nxo iter
        (\<lparr>completed = False, iter_state = Some it\<rparr>, h) w
      = ((r, (\<lparr>completed = \<not> is_value r, iter_state = Some it\<rparr>, h')), ?w')"
    by (simp add: async_next_live step)
  have dir: "direct_next (effective ctx w) (nxo it iter) h () = ((r, h'), ())"
    by (simp add: direct_next_def step)
  show ?case
  proof (cases "is_value r")
    case True
    with Suc.IH[of h' "?w'"] show ?thesis
      by (simp add: fst_pulls_Suc snd_pulls_Suc nxt dir del: pulls.simps(2))
  next
    case False
    have len: "length (fst (pulls (direct_next (effective ctx w) (nxo it iter)) n h' ())) = n"
      by (rule length_pulls)
    from False show ?thesis
      by (simp add: fst_pulls_Suc snd_pulls_Suc nxt dir async_pulls_completed len
          map_replicate_const del: pulls.simps(2))
  qed
qed

lemma async_results:
  assumes "ai h iter = (it, h0)"
  shows "fst (pulls (consumeAsyncIterableInContext_next ctx ai nxo iter) n
          (consumeAsyncIterableInContext, h) w)
     = stop_after_end (fst (pulls (direct_next (effective ctx w) (nxo it iter)) n h0 ()))
   \<and> snd (snd (pulls (consumeAsyncIterableInContext_next ctx ai nxo iter) n
          (consumeAsyncIterableInContext, h) w))
     = w\<lparr>installs := installs w
          + live_pulls (fst (pulls (direct_next (effective ctx w) (nxo it iter)) n h0 ()))\<rparr>"
proof (cases n)
  case 0
  then show ?thesis by simp
next
  case (Suc m)
  obtain r h' where step: "nxo it iter (effective ctx w) h0 = (r, h')"
    by (cases "nxo it iter (effective ctx w) h0")
  let ?w' = "w\<lparr>installs := Suc (installs w)\<rparr>"
  have nxt: "consumeAsyncIterableInContext_next ctx ai nxo iter
        (consumeAsyncIterableInContext, h) w
      = ((r, (\<lparr>completed = \<not> is_value r, iter_state = Some it\<rparr>, h')), ?w')"
    by (simp add: async_next_live consumeAsyncIterableInContext_def assms step)
  have dir: "direct_next (effective ctx w) (nxo it iter) h0 () = ((r, h'), ())"
    by (simp add: direct_next_def step)
  show ?thesis
  proof (cases "is_value r")
    case True
    note ih = async_results_started[where n = m and h = h' and w = "?w'" and it = it]
    from True ih Suc show ?thesis
      by (simp add: fst_pulls_Suc snd_pulls_Suc nxt dir del: pulls.simps(2))
  next
    case False
    have len: "length (fst (pulls (direct_next (effective ctx w) (nxo it iter)) m h' ())) = m"
      by (rule length_pulls)
    from False Suc show ?thesis
      by (simp add: fst_pulls_Suc snd_pulls_Suc nxt dir async_pulls_completed len
          map_replicate_const del: pulls.simps(2))
  qed
qed

lemma runWithConfig_installs:
  "fst (runWithConfig (Some c) (\<lambda>w1. (ambient w1, w1)) w) = Some c"
  by (simp add: runWithConfig_def)

lemma runWithConfig_restores: "ambient (snd (runWithConfig config callback w)) = ambient w"
  by (simp add: runWithConfig_def Let_def split: prod.splits)

text \<open>
  The synchronous wrapper is value-transparent: its results are those of the underlying
  iterator pulled directly under the installed context, cut at the underlying's end.
\<close>

lemma consumeIteratorInContext_transparent:
  "fst (pulls (consumeIteratorInContext_next ctx nx) n (consumeIteratorInContext iter) w)
     = stop_after_end (fst (pulls (direct_next (effective ctx w) nx) n iter ()))"
  by (simp add: consumeIteratorInContext_def sync_results)

text \<open>
  So is the asynchronous wrapper when the iterable is its own iterator, as an async
  generator is: the receiver it binds is then the iterator.
\<close>

lemma consumeAsyncIterableInContext_transparent_own_iterator:
  assumes "asyncIterator h iter = (iter, h)"
  shows "fst (pulls (consumeAsyncIterableInContext_next ctx asyncIterator next_of iter) n
            (consumeAsyncIterableInContext, h) w)
     = stop_after_end (fst (pulls (direct_next (effective ctx w) (next_of iter iter)) n h ()))"
  using async_results[where ai = asyncIterator and h = h and iter = iter and it = iter and ?h0.0 = h
      and nxo = next_of and ctx = ctx and n = n and w = w, OF assms] by simp

text \<open>
  C3. After any number of pulls of the wrapped sequence, synchronous or asynchronous,
  the ambient context is the one that was ambient before, and a context has been
  installed once for every pull up to and including the first that signals completion
  (or fails), and never after it.
\<close>

theorem context_restored_after_pulls:
  "ambient (snd (snd (pulls (consumeIteratorInContext_next ctx nx) n
       (consumeIteratorInContext iter) w))) = ambient w
   \<and> installs (snd (snd (pulls (consumeIteratorInContext_next ctx nx) n
       (consumeIteratorInContext iter) w)))
     = installs w + live_pulls (fst (pulls (consumeIteratorInContext_next ctx nx) n
       (consumeIteratorInContext iter) w))
   \<and> ambient (snd (snd (pulls (consumeAsyncIterableInContext_next ctx asyncIterator next_of it) n
       (consumeAsyncIterableInContext, h) w))) = ambient w
   \<and> installs (snd (snd (pulls (consumeAsyncIterableInContext_next ctx asyncIterator next_of it) n
       (consumeAsyncIterableInContext, h) w)))
     = installs w + live_pulls (fst (pulls (consumeAsyncIterableInContext_next ctx asyncIterator next_of it) n
       (consumeAsyncIterableInContext, h) w))"
proof -
  obtain i h0 where ai: "asyncIterator h it = (i, h0)" by (cases "asyncIterator h it")
  show ?thesis
    by (simp add: consumeIteratorInContext_def sync_results live_pulls_stop_after_end
        async_results[where ai = asyncIterator and h = h and iter = it and it = i and ?h0.0 = h0
          and nxo = next_of and ctx = ctx and n = n and w = w, OF ai])
qed

text \<open>
  C4 fails on the asynchronous wrapper. The iterable \<open>source\<close> (reference 0) hands out a
  separate \<open>Cursor\<close> (reference 1) over the items 1, 2, 3. Pulled directly, the cursor
  yields 1, 2, 3 and then completes. The wrapper calls the cursor's \<^verbatim>\<open>next\<close> with the
  iterable as receiver, finds no position there and completes at once.
\<close>

theorem consumeAsyncIterableInContext_separate_iterator:
  "fst (pulls (direct_next (Some ()) (cursor_next 1 1)) 4
        (snd (source_asyncIterator source_heap 0)) ())
     = [Inr (Value 1), Inr (Value 2), Inr (Value 3), Inr Done]
   \<and> fst (pulls (consumeAsyncIterableInContext_next (Some ()) source_asyncIterator cursor_next 0) 4
        (consumeAsyncIterableInContext, source_heap) world0)
     = [Inr Done, Inr Done, Inr Done, Inr Done]"
  by (simp add: numeral_nat direct_next_def source_asyncIterator_def cursor_next_def
      source_heap_def consumeAsyncIterableInContext_next_def consumeAsyncIterableInContext_def
      world0_def runWithConfig_def)

section \<open>Properties of the tool call parser\<close>

lemma loop_step:
  "defaultToolCallParser_loop P (raw # raws) (ts, is) =
     defaultToolCallParser_loop P raws
       (ts @ option_list (valid_of (classify P raw)), is @ option_list (invalid_of (classify P raw)))"
proof (cases "map_of raw ''function''")
  case None
  then show ?thesis by (simp add: classify_def prop_of_def)
next
  case (Some f)
  then have f: "prop_of raw ''function'' = f" by (simp add: prop_of_def)
  show ?thesis
  proof (cases "truthy f")
    case False
    with Some f show ?thesis by (simp add: classify_def)
  next
    case True
    with Some f show ?thesis
      by (cases "P (get_prop f ''arguments'')") (simp_all add: classify_def or_else_def)
  qed
qed

lemma map_filter_Cons: "List.map_filter g (x # xs) = option_list (g x) @ List.map_filter g xs"
  by (cases "g x") (simp_all add: map_filter_simps)

lemma loop_classify:
  "defaultToolCallParser_loop P raws (ts, is) =
     (ts @ List.map_filter (valid_of \<circ> classify P) raws,
      is @ List.map_filter (invalid_of \<circ> classify P) raws)"
proof (induction raws arbitrary: ts "is")
  case Nil
  show ?case by (simp add: map_filter_simps)
next
  case (Cons raw raws)
  show ?case
    by (simp only: loop_step Cons.IH map_filter_Cons comp_apply append_assoc)
qed

lemma length_map_filter_classify:
  "length (List.map_filter (valid_of \<circ> classify P) raws)
     + length (List.map_filter (invalid_of \<circ> classify P) raws)
   = length (filter (\<lambda>raw. truthy (prop_of raw ''function'')) raws)"
proof (induction raws)
  case Nil
  show ?case by (simp add: map_filter_simps)
next
  case (Cons raw raws)
  have "length (option_list (valid_of (classify P raw)))
      + length (option_list (invalid_of (classify P raw)))
    = (if truthy (prop_of raw ''function'') then 1 else 0)"
    by (cases "map_of raw ''function''"; cases "P (get_prop (prop_of raw ''function'') ''arguments'')")
       (simp_all add: classify_def prop_of_def)
  with Cons.IH show ?case
    by (auto simp add: map_filter_Cons simp del: map_filter_simps split: if_splits)
qed

text \<open>
  C10. For every list of raw tool calls the parser returns, in input order, the valid
  tool calls of the entries whose arguments parse and the invalid tool calls of the
  entries whose arguments do not; entries without a function contribute to neither, and
  every other entry to exactly one of the two. The model has no failing branch: the only
  throw, that of \<^verbatim>\<open>JSON.parse\<close>, is caught.
\<close>

theorem defaultToolCallParser_partition:
  "defaultToolCallParser P raws =
     (List.map_filter (valid_of \<circ> classify P) raws,
      List.map_filter (invalid_of \<circ> classify P) raws)
   \<and> length (fst (defaultToolCallParser P raws)) + length (snd (defaultToolCallParser P raws))
     = length (filter (\<lambda>raw. truthy (prop_of raw ''function'')) raws)"
  by (simp add: defaultToolCallParser_def loop_classify length_map_filter_classify)

section \<open>Properties of the streaming aggregation\<close>

declare decimal.simps [simp del]

lemma generationInfo_with [simp]: "generationInfo (with_generationInfo c) = generationInfo c"
  by (simp add: with_generationInfo_def)

subsection \<open>Keys and indices\<close>

lemma is_digit_digit_char: "is_digit (digit_char d)"
proof -
  have "d mod 10 < length ''0123456789''" by simp
  then show ?thesis unfolding digit_char_def is_digit_def by (rule nth_mem)
qed

lemma place_of_nth:
  "distinct xs \<Longrightarrow> i < length xs \<Longrightarrow> length (takeWhile (\<lambda>x. x \<noteq> xs ! i) xs) = i"
proof (induction xs arbitrary: i)
  case Nil
  then show ?case by simp
next
  case (Cons x xs)
  show ?case
  proof (cases i)
    case 0
    then show ?thesis by simp
  next
    case (Suc j)
    with Cons.prems have "xs ! j \<in> set xs" "x \<notin> set xs" by simp_all
    then have "x \<noteq> xs ! j" by auto
    with Suc Cons show ?thesis by simp
  qed
qed

lemma digit_value_digit_char: "d < 10 \<Longrightarrow> digit_value (digit_char d) = d"
  using place_of_nth[of "''0123456789''" d] by (simp add: digit_char_def digit_value_def)

lemma decimal_digits: "list_all is_digit (decimal n)"
  by (induction n rule: decimal.induct) (subst decimal.simps, simp add: is_digit_digit_char)

lemma decimal_not_Nil: "decimal n \<noteq> []"
  by (subst decimal.simps) simp

lemma digits_value_snoc: "digits_value (xs @ [c]) = 10 * digits_value xs + digit_value c"
  by (simp add: digits_value_def)

lemma digits_value_decimal: "digits_value (decimal n) = n"
proof (induction n rule: decimal.induct)
  case (1 n)
  show ?case
  proof (cases "n < 10")
    case True
    then show ?thesis
      by (subst decimal.simps) (simp add: digits_value_def digit_value_digit_char)
  next
    case False
    with 1 show ?thesis
      by (subst decimal.simps) (simp add: digits_value_snoc digit_value_digit_char)
  qed
qed

lemma is_digit_not_special:
  "is_digit c \<Longrightarrow> \<not> is_space c \<and> c \<noteq> CHR ''-'' \<and> c \<noteq> CHR ''+''"
  by (auto simp: is_digit_def is_space_def)

lemma parseInt_decimal: "parseInt (decimal n) = Some (int n)"
proof -
  obtain c r where cr: "decimal n = c # r"
    using decimal_not_Nil[of n] by (cases "decimal n") auto
  have all: "list_all is_digit (c # r)" using decimal_digits[of n] cr by simp
  then have c: "is_digit c" by simp
  have tw: "takeWhile is_digit (c # r) = c # r"
    using all by (simp add: takeWhile_eq_all_conv list_all_iff)
  have "parseInt (c # r) = Some (int (digits_value (c # r)))"
    using is_digit_not_special[OF c] tw by (simp add: parseInt_def Let_def)
  then show ?thesis using digits_value_decimal[of n] cr by simp
qed

lemma parseInt_minus_decimal: "parseInt (CHR ''-'' # decimal n) = Some (- int n)"
proof -
  have all: "list_all is_digit (decimal n)" by (rule decimal_digits)
  have tw: "takeWhile is_digit (decimal n) = decimal n"
    using all by (simp add: takeWhile_eq_all_conv list_all_iff)
  show ?thesis
    using decimal_not_Nil[of n] digits_value_decimal[of n]
    by (simp add: parseInt_def Let_def tw is_space_def)
qed

text \<open>Below \<open>10\<^sup>2\<^sup>1\<close>, \<^verbatim>\<open>parseInt\<close> reads back the integer whose string it is given.\<close>

lemma parseInt_Number_toString:
  "\<bar>n\<bar> < 1000000000000000000000 \<Longrightarrow> parseInt (Number_toString n) = Some n"
  by (auto simp: Number_toString_def magnitude_string_def parseInt_decimal parseInt_minus_decimal)

lemma parsed_key_Number_toString:
  "\<bar>n\<bar> < 1000000000000000000000 \<Longrightarrow> parsed_key (Number_toString n) = n"
  by (simp add: parsed_key_def parseInt_Number_toString)

lemma Number_toString_0: "Number_toString 0 = ''0''"
  by (simp add: Number_toString_def magnitude_string_def decimal.simps digit_char_def)

text \<open>The key the loop files a chunk under is the string of its stream index.\<close>

lemma chunk_key_stream_index:
  "stream_index c = Some i \<Longrightarrow> chunk_key c = Number_toString i"
  by (auto simp: stream_index_def chunk_key_def completion_index_def prop_of_def nullish_or_def
      Number_toString_0 split: option.splits JsonValue.splits)

lemma small_indexD:
  assumes "small_index c"
  obtains i where "stream_index c = Some i" "\<bar>i\<bar> < 1000000000000000000000"
    "chunk_key c = Number_toString i" "parsed_key (chunk_key c) = i"
proof -
  from assms obtain i where i: "stream_index c = Some i" "\<bar>i\<bar> < 1000000000000000000000"
    by (auto simp: small_index_def split: option.splits)
  then have "chunk_key c = Number_toString i" by (simp add: chunk_key_stream_index)
  with i that show thesis by (simp add: parsed_key_Number_toString)
qed

subsection \<open>The loop and the final sort\<close>

lemma group_by_key_Cons:
  "group_by_key k (c # cs) =
     (if chunk_key c = k then with_generationInfo c # group_by_key k cs else group_by_key k cs)"
  by (simp add: group_by_key_def)

lemma generate_loop_inv:
  "distinct (map fst fc) \<Longrightarrow>
   distinct (map fst (generate_loop cc cs fc))
   \<and> fst ` set (generate_loop cc cs fc) = fst ` set fc \<union> chunk_key ` set cs
   \<and> (\<forall>k. map_of (generate_loop cc cs fc) k =
          (case map_of fc k of
             None \<Rightarrow> merge_group cc (group_by_key k cs)
           | Some e \<Rightarrow> Some (foldl cc e (group_by_key k cs))))"
proof (induction cs arbitrary: fc)
  case Nil
  then show ?case by (simp add: group_by_key_def split: option.splits)
next
  case (Cons c cs)
  let ?c1 = "with_generationInfo c"
  let ?i = "chunk_key c"
  let ?v = "case map_of fc ?i of None \<Rightarrow> ?c1 | Some e \<Rightarrow> cc e ?c1"
  let ?fc' = "AList.update ?i ?v fc"
  have step: "generate_loop cc (c # cs) fc = generate_loop cc cs ?fc'"
    by (simp add: chunk_key_def Let_def)
  have d': "distinct (map fst ?fc')" using Cons.prems by (rule distinct_update)
  note ih = Cons.IH[OF d']
  have keys: "fst ` set ?fc' = {?i} \<union> fst ` set fc" by (rule dom_update)
  have look: "map_of ?fc' j = (if j = ?i then Some ?v else map_of fc j)" for j
    by (simp add: update_conv')
  show ?case
  proof (intro conjI allI)
    show "distinct (map fst (generate_loop cc (c # cs) fc))" using ih step by simp
    show "fst ` set (generate_loop cc (c # cs) fc) = fst ` set fc \<union> chunk_key ` set (c # cs)"
      using ih step keys by auto
    fix j
    show "map_of (generate_loop cc (c # cs) fc) j =
          (case map_of fc j of
             None \<Rightarrow> merge_group cc (group_by_key j (c # cs))
           | Some e \<Rightarrow> Some (foldl cc e (group_by_key j (c # cs))))"
    proof (cases "j = ?i")
      case True
      with ih step show ?thesis
        by (simp add: look group_by_key_Cons split: option.splits)
    next
      case False
      with ih step show ?thesis
        by (simp add: look group_by_key_Cons split: option.splits)
    qed
  qed
qed

lemma in_set_map_filter: "y \<in> set (List.map_filter g xs) \<longleftrightarrow> (\<exists>x\<in>set xs. g x = Some y)"
  by (induction xs) (auto split: option.splits)

lemma map_snd_by_key:
  "(\<And>e. e \<in> set ys \<Longrightarrow> g (p e) = Some (snd e)) \<Longrightarrow>
   map snd ys = List.map_filter g (map p ys)"
  by (induction ys) (simp_all add: map_filter_simps)

lemma length_object_entries: "length (object_entries xs) = length xs"
proof -
  have "length (filter (\<lambda>e. array_index (fst e) \<noteq> None) xs)
      + length (filter (\<lambda>e. \<not> array_index (fst e) \<noteq> None) xs) = length xs"
    by (rule sum_length_filter_compl)
  then show ?thesis by (simp add: object_entries_def)
qed

lemma set_object_entries: "set (object_entries xs) = set xs"
  by (auto simp: object_entries_def)

lemma group_by_key_group_of:
  assumes "list_all small_index chunks" and "\<bar>i\<bar> < 1000000000000000000000"
  shows "group_by_key (Number_toString i) chunks = group_of i chunks"
proof -
  have "chunk_key c = Number_toString i \<longleftrightarrow> stream_index c = Some i" if "c \<in> set chunks" for c
  proof -
    from that assms(1) have "small_index c" by (simp add: list_all_iff)
    then obtain j where j: "stream_index c = Some j" "\<bar>j\<bar> < 1000000000000000000000"
      "chunk_key c = Number_toString j"
      by (rule small_indexD)
    show ?thesis
    proof
      assume "chunk_key c = Number_toString i"
      then have "parsed_key (Number_toString j) = parsed_key (Number_toString i)"
        using j(3) by simp
      then have "j = i" using j(2) assms(2) by (simp add: parsed_key_Number_toString)
      with j(1) show "stream_index c = Some i" by simp
    next
      assume "stream_index c = Some i"
      then show "chunk_key c = Number_toString i" by (rule chunk_key_stream_index)
    qed
  qed
  then have "filter (\<lambda>c. chunk_key c = Number_toString i) chunks
      = filter (\<lambda>c. stream_index c = Some i) chunks"
    by (intro filter_cong) simp_all
  then show ?thesis by (simp add: group_by_key_def group_of_def)
qed

text \<open>
  C2 (as amended). For every finite stream of chunks that ends without an error and
  whose stream indices are integers of magnitude below \<open>10\<^sup>2\<^sup>1\<close>, the generations are the
  folds of the groups of chunks with equal stream index (0 when a chunk carries none),
  each group folded by the pairwise merge in arrival order starting from its first chunk,
  listed by ascending index, one generation for every index that occurs.
\<close>

theorem generate_stream_groups_by_index:
  assumes "list_all small_index chunks"
  shows "generate_stream cc (chunks, None) =
     Inr (List.map_filter (\<lambda>i. merge_group cc (group_of i chunks)) (ascending_indices chunks))
   \<and> length (List.map_filter (\<lambda>i. merge_group cc (group_of i chunks))
        (ascending_indices chunks))
     = card (set (List.map_filter stream_index chunks))"
proof -
  let ?fc = "generate_loop cc chunks []"
  let ?p = "\<lambda>e::string \<times> ChatGenerationChunk. parsed_key (fst e)"
  let ?ys = "sort_key ?p (object_entries ?fc)"
  let ?g = "\<lambda>i. merge_group cc (group_of i chunks)"
  have inv: "distinct (map fst ?fc)" "fst ` set ?fc = chunk_key ` set chunks"
    "\<And>k. map_of ?fc k = merge_group cc (group_by_key k chunks)"
    using generate_loop_inv[of "[]" cc chunks] by simp_all
  have small: "small_index c" if "c \<in> set chunks" for c
    using that assms by (simp add: list_all_iff)
  have entry: "\<exists>i. \<bar>i\<bar> < 1000000000000000000000 \<and> fst e = Number_toString i \<and> ?p e = i
      \<and> i \<in> set (List.map_filter stream_index chunks)" if "e \<in> set ?fc" for e
  proof -
    from that inv(2) obtain c where c: "c \<in> set chunks" "fst e = chunk_key c" by force
    from small[OF c(1)] obtain i where i: "stream_index c = Some i"
      "\<bar>i\<bar> < 1000000000000000000000" "chunk_key c = Number_toString i"
      "parsed_key (chunk_key c) = i"
      by (rule small_indexD)
    have "i \<in> set (List.map_filter stream_index chunks)"
      using c(1) i(1) by (auto simp: in_set_map_filter)
    with c i show ?thesis by auto
  qed
  have set_ys: "set ?ys = set ?fc" by (simp add: set_object_entries)
  have inj: "inj_on ?p (set ?fc)"
  proof (rule inj_onI)
    fix e1 e2
    assume e: "e1 \<in> set ?fc" "e2 \<in> set ?fc" "?p e1 = ?p e2"
    from entry[OF e(1)] entry[OF e(2)] e(3) have "fst e1 = fst e2" by auto
    with inv(1) e(1,2) show "e1 = e2"
      by (metis eq_key_imp_eq_value prod.collapse)
  qed
  have dist_fc: "distinct ?fc" using inv(1) by (simp add: distinct_map)
  have "card (set ?ys) = length ?fc" using dist_fc set_ys by (simp add: distinct_card)
  also have "\<dots> = length ?ys" by (simp add: length_object_entries)
  finally have dist_ys: "distinct ?ys" by (rule card_distinct)
  have keys: "map ?p ?ys = ascending_indices chunks"
    unfolding ascending_indices_def
  proof (rule sorted_distinct_set_unique)
    show "sorted (map ?p ?ys)" by (rule sorted_sort_key)
    show "distinct (map ?p ?ys)"
      using dist_ys inj set_ys by (simp add: distinct_map)
    show "sorted (sort (remdups (List.map_filter stream_index chunks)))" by simp
    show "distinct (sort (remdups (List.map_filter stream_index chunks)))" by simp
    show "set (map ?p ?ys) = set (sort (remdups (List.map_filter stream_index chunks)))"
    proof (intro set_eqI iffI)
      fix i
      assume "i \<in> set (map ?p ?ys)"
      then obtain e where "e \<in> set ?fc" "i = ?p e" using set_ys by auto
      with entry[of e] show "i \<in> set (sort (remdups (List.map_filter stream_index chunks)))"
        by auto
    next
      fix i
      assume "i \<in> set (sort (remdups (List.map_filter stream_index chunks)))"
      then obtain c where c: "c \<in> set chunks" "stream_index c = Some i"
        by (auto simp: in_set_map_filter)
      from small[OF c(1)] c(2) have p: "parsed_key (chunk_key c) = i"
        by (auto elim: small_indexD)
      from c(1) inv(2) obtain e where "e \<in> set ?fc" "fst e = chunk_key c" by force
      with p set_ys show "i \<in> set (map ?p ?ys)" by force
    qed
  qed
  have vals: "?g (?p e) = Some (snd e)" if "e \<in> set ?ys" for e
  proof -
    from that set_ys have e: "e \<in> set ?fc" by simp
    from entry[OF e] obtain i where i: "\<bar>i\<bar> < 1000000000000000000000"
      "fst e = Number_toString i" "?p e = i" by auto
    have "map_of ?fc (fst e) = Some (snd e)" using inv(1) e by simp
    then have "merge_group cc (group_by_key (Number_toString i) chunks) = Some (snd e)"
      using inv(3) i(2) by simp
    then show ?thesis using i(3) group_by_key_group_of[OF assms i(1)] by simp
  qed
  have gens: "map snd ?ys = List.map_filter ?g (ascending_indices chunks)"
    using map_snd_by_key[of ?ys ?g ?p, OF vals] keys by simp
  have "length (List.map_filter ?g (ascending_indices chunks)) = length ?ys"
    using gens by (metis length_map)
  also have "\<dots> = length (ascending_indices chunks)" using keys by (metis length_map)
  also have "\<dots> = card (set (List.map_filter stream_index chunks))"
    by (simp add: ascending_indices_def length_remdups_card_conv)
  finally show ?thesis using gens by (simp add: generate_stream_def)
qed

text \<open>The delivery order 1, 0, 1, 0 satisfies the hypothesis; there index 0 is emitted
  before index 1, each merged from its two chunks in arrival order.\<close>

theorem generate_stream_groups_by_index_witness:
  "list_all small_index interleaved_chunks
   \<and> generate_stream concat_generation (interleaved_chunks, None) =
       Inr (List.map_filter (\<lambda>i. merge_group concat_generation (group_of i interleaved_chunks))
              (ascending_indices interleaved_chunks))
   \<and> length (List.map_filter (\<lambda>i. merge_group concat_generation (group_of i interleaved_chunks))
        (ascending_indices interleaved_chunks))
     = card (set (List.map_filter stream_index interleaved_chunks))"
proof -
  have h: "list_all small_index interleaved_chunks"
    by (simp add: interleaved_chunks_def small_index_def stream_index_def chunk_at_def)
  from generate_stream_groups_by_index[OF h, of concat_generation] h show ?thesis by blast
qed

lemma interleaved_groups:
  "List.map_filter (\<lambda>i. merge_group cc (group_of i interleaved_chunks))
     (ascending_indices interleaved_chunks)
   = [cc (with_generationInfo (chunk_at 0 ''b'')) (with_generationInfo (chunk_at 0 ''d'')),
      cc (with_generationInfo (chunk_at 1 ''a'')) (with_generationInfo (chunk_at 1 ''c''))]"
  by (simp add: interleaved_chunks_def ascending_indices_def group_of_def stream_index_def
      chunk_at_def map_filter_simps)

text \<open>
  C2 as stated fails: index 2 delivered before index \<open>10\<^sup>2\<^sup>1\<close>. The key of the second is
  \<^verbatim>\<open>1e+21\<close>, which \<^verbatim>\<open>parseInt\<close> reads as 1, so it is emitted before index 2.
\<close>

theorem generate_stream_large_index_counterexample:
  "generate_stream concat_generation
     ([chunk_at 2 ''a'', chunk_at 1000000000000000000000 ''b''], None)
   = Inr [with_generationInfo (chunk_at 1000000000000000000000 ''b''),
          with_generationInfo (chunk_at 2 ''a'')]"
  by (simp add: generate_stream_def chunk_at_def completion_index_def prop_of_def nullish_or_def
      Number_toString_def magnitude_string_def exponent_form_def decimal.simps digit_char_def
      object_entries_def array_index_def array_index_value_def is_digit_def digits_value_def
      digit_value_def parsed_key_def parseInt_def is_space_def Let_def)

lemma first_some_append:
  "first_some (xs @ ys) = (case first_some xs of None \<Rightarrow> first_some ys | Some x \<Rightarrow> Some x)"
  by (induction xs rule: first_some.induct) simp_all

lemma last_usage_Cons:
  "last_usage (d # ds) = (case last_usage ds of None \<Rightarrow> usage d | Some u \<Rightarrow> Some u)"
  by (cases "usage d") (simp_all add: last_usage_def first_some_append split: option.splits)

lemma usage_convert [simp]:
  "usage_metadata (convertDeltaToMessageChunk d data r inc) = None"
  by (simp add: convertDeltaToMessageChunk_def new_chunk_def Let_def)

lemma body_no_usage:
  "filter with_usage (option_list (fst (streamResponseChunks_body options data r))) = []"
  by (simp add: streamResponseChunks_body_def with_usage_def Let_def
      split: list.splits option.splits MessageContent.splits)

lemma loop_usage:
  "snd (streamResponseChunks_loop options datas r u0) =
     (case last_usage datas of None \<Rightarrow> u0 | Some u \<Rightarrow> Some u)"
proof (induction datas arbitrary: r u0)
  case Nil
  show ?case by (simp add: last_usage_def)
next
  case (Cons d ds)
  show ?case
    by (simp add: Let_def Cons.IH last_usage_Cons split: option.splits)
qed

lemma loop_no_usage:
  "filter with_usage (fst (streamResponseChunks_loop options datas r u0)) = []"
proof (induction datas arbitrary: r u0)
  case Nil
  show ?case by simp
next
  case (Cons d ds)
  show ?case
    by (simp add: Let_def Cons.IH body_no_usage)
qed

text \<open>
  C8. When the stream ends, the chunks yielded are those of the response chunks followed,
  if any response chunk carried usage, by one chunk holding the usage last seen (its
  prompt, completion and total counts as input, output and total); no other chunk
  carries usage.
\<close>

theorem usage_last_wins_one_terminal_chunk:
  "fst (streamResponseChunks options (datas, None)) =
     fst (streamResponseChunks_loop options datas JUndefined None)
     @ (case last_usage datas of None \<Rightarrow> [] | Some u \<Rightarrow> [usage_chunk u])
   \<and> filter with_usage (fst (streamResponseChunks options (datas, None))) =
     (case last_usage datas of None \<Rightarrow> [] | Some u \<Rightarrow> [usage_chunk u])
   \<and> usage_metadata (message (usage_chunk u)) =
     Some \<lparr> input_tokens = prompt_tokens u, output_tokens = completion_tokens u,
            total_tokens = total_tokens' u \<rparr>"
proof -
  obtain cs u1 where l: "streamResponseChunks_loop options datas JUndefined None = (cs, u1)"
    by (cases "streamResponseChunks_loop options datas JUndefined None")
  have u1: "u1 = last_usage datas"
    using loop_usage[of options datas JUndefined None] l by (simp split: option.splits)
  have cs: "filter with_usage cs = []"
    using loop_no_usage[of options datas JUndefined None] l by simp
  show ?thesis
    by (simp add: streamResponseChunks_def l u1 cs usage_chunk_def new_chunk_def with_usage_def
        split: option.splits)
qed

text \<open>
  C9 (as amended). The aggregation reports no grouping error. A chunk without generation
  info is grouped under index 0, and a later chunk that carries index 0 explicitly is
  merged into that same slot.
\<close>

theorem default_then_explicit_index_merged:
  assumes "generationInfo c1 = None" and "stream_index c2 = Some 0"
  shows "generate_stream cc ([c1, c2], None)
     = Inr [cc (with_generationInfo c1) (with_generationInfo c2)]"
proof -
  have k1: "ToString (completion_index (generationInfo c1)) = ''0''"
    using assms(1) by (simp add: completion_index_def Number_toString_0)
  have k2: "ToString (completion_index (generationInfo c2)) = ''0''"
    using chunk_key_stream_index[OF assms(2)] by (simp add: chunk_key_def Number_toString_0)
  show ?thesis
    by (simp add: generate_stream_def k1 k2 object_entries_def Let_def)
qed

theorem default_then_explicit_index_merged_witness:
  "generationInfo plain_chunk = None \<and> stream_index tool_chunk = Some 0
   \<and> generate_stream concat_generation ([plain_chunk, tool_chunk], None)
     = Inr [concat_generation (with_generationInfo plain_chunk) (with_generationInfo tool_chunk)]"
proof -
  have a: "generationInfo plain_chunk = None" by (simp add: plain_chunk_def)
  have b: "stream_index tool_chunk = Some 0"
    by (simp add: tool_chunk_def stream_index_def)
  show ?thesis using a b default_then_explicit_index_merged[OF a b, of concat_generation] by simp
qed

text \<open>
  C9 as stated fails: a plain content chunk with the default index followed by a tool
  call chunk that carries index 0. The result is not an error; its one generation holds
  the content of the first chunk and the tool call piece of the second.
\<close>

theorem ambiguous_grouping_counterexample:
  "generate_stream concat_generation ([plain_chunk, tool_chunk], None) =
     Inr [\<lparr> text' = ''Hello'',
            message =
              \<lparr> content = Text ''Hello'', name = None, additional_kwargs = [],
                response_metadata = [(''prompt'', JNum 0), (''completion'', JNum 0)],
                id' = None, chunk_class = AIChunk,
                tool_call_chunks =
                  [ToolCallChunk (JStr ''foo'') (JStr ''{}'') (JStr ''call_1'') (JNum 0)],
                usage_metadata = None, delta_tool_call_id = JUndefined \<rparr>,
            generationInfo = Some [(''prompt'', JNum 0), (''completion'', JNum 0)] \<rparr>]"
  by (simp add: generate_stream_def plain_chunk_def tool_chunk_def completion_index_def
      prop_of_def nullish_or_def Number_toString_0 object_entries_def Let_def
      with_generationInfo_def spread_def new_chunk_def concat_generation_def concat_message_def
      merge_tool_call_chunks_def mergeDicts.simps)

end
